theory Spec2Isabelle
  imports Complex_Main "HOL-Library.AList"
begin

section \<open>Python values\<close>

text \<open>
  The proxies work on what \<^verbatim>\<open>json.loads\<close> returns: \<^verbatim>\<open>None\<close>, booleans, integers, floats,
  strings, lists and dicts. A dict is an association list in insertion order, as Python
  keeps it; \<^verbatim>\<open>d[k] = v\<close> is \<open>AList.update\<close> (the value is replaced where the key stands, a new
  key goes last), \<^verbatim>\<open>del d[k]\<close> and a comprehension that drops a key are \<open>AList.delete\<close>,
  \<^verbatim>\<open>k in d\<close> and \<^verbatim>\<open>d.get(k, default)\<close> read the first entry of the key. A finite float is
  the rational number it denotes. A \<open>char\<close> of a \<open>string\<close> stands for one code point
  below 256.
\<close>

datatype json =
    JNull
  | JBool bool
  | JInt int
  | JFloat rat
  | JStr string
  | JList "json list"
  | JDict "(string \<times> json) list"

type_synonym pydict = "(string \<times> json) list"

text \<open>
  The exceptions the code can meet, each with the text \<^verbatim>\<open>str(e)\<close> gives. The class
  hierarchy decides which \<^verbatim>\<open>except\<close> clause catches: \<^verbatim>\<open>aiohttp.ServerTimeoutError\<close> is both an
  \<^verbatim>\<open>asyncio.TimeoutError\<close> and an \<^verbatim>\<open>aiohttp.ClientError\<close>; \<^verbatim>\<open>ClientResponseError\<close> (with its
  status and message) and \<^verbatim>\<open>ClientPayloadError\<close> are \<^verbatim>\<open>ClientError\<close>s; \<open>ClientError\<close> stands
  for every other \<^verbatim>\<open>aiohttp.ClientError\<close> (connection failures); \<^verbatim>\<open>json.JSONDecodeError\<close> is a
  \<^verbatim>\<open>ValueError\<close>; \<open>OtherException\<close> is any other subclass of \<^verbatim>\<open>Exception\<close>.
\<close>

datatype exn =
    TimeoutError string
  | ServerTimeoutError string
  | ClientResponseError nat string string
  | ClientPayloadError string
  | ClientError string
  | JSONDecodeError string
  | ValueError string
  | KeyError string
  | AttributeError string
  | TypeError string
  | OtherException string

fun truthy :: "json \<Rightarrow> bool" where
  "truthy JNull = False"
| "truthy (JBool b) = b"
| "truthy (JInt n) = (n \<noteq> 0)"
| "truthy (JFloat q) = (q \<noteq> 0)"
| "truthy (JStr s) = (s \<noteq> [])"
| "truthy (JList xs) = (xs \<noteq> [])"
| "truthy (JDict d) = (d \<noteq> [])"

definition py_in :: "string \<Rightarrow> (string \<times> 'v) list \<Rightarrow> bool" where
  "py_in k d = (map_of d k \<noteq> None)"

definition py_get :: "(string \<times> 'v) list \<Rightarrow> string \<Rightarrow> 'v \<Rightarrow> 'v" where
  "py_get d k dflt = (case map_of d k of None \<Rightarrow> dflt | Some v \<Rightarrow> v)"

section \<open>The handlers\<close>

text \<open>
  The two request handlers. \<open>messages_endpoint_url\<close> is the attribute
  \<^verbatim>\<open>self.messages_endpoint\<close>; the route function has that name in the source too.

  Both handlers keep a pooled HTTP session in \<^verbatim>\<open>self.session\<close>, \<^verbatim>\<open>None\<close> after construction,
  and every forwarder starts with \<^verbatim>\<open>await self._get_session()\<close>. The Anthropic handler's
  \<^verbatim>\<open>_get_session\<close> builds its session from keywords that aiohttp accepts, so it returns a
  session in every state of the handler and the attribute is left out of that record. The
  OpenRouter handler's \<^verbatim>\<open>_get_session\<close> can fail (section on the HTTP session), so its
  record has the attribute; of a session the code reads \<^verbatim>\<open>closed\<close>.
\<close>

record client_session =
  session_closed :: bool

record handler =
  api_url :: string
  api_key :: string

record anthropic_handler = handler +
  cache_control_ttl :: string
  messages_endpoint_url :: string

record openai_handler = handler +
  session :: "client_session option"
  chat_endpoint :: string

definition rstrip_slash :: "string \<Rightarrow> string" where
  "rstrip_slash s = rev (dropWhile (\<lambda>c. c = CHR ''/'') (rev s))"

definition endswith :: "string \<Rightarrow> string \<Rightarrow> bool" where
  "endswith s suffix =
     (length suffix \<le> length s \<and> drop (length s - length suffix) s = suffix)"

definition AnthropicRequestHandler :: "string \<Rightarrow> string \<Rightarrow> string \<Rightarrow> anthropic_handler" where
  "AnthropicRequestHandler url key ttl =
     (let u = rstrip_slash url
      in \<lparr>api_url = u, api_key = key, cache_control_ttl = ttl,
          messages_endpoint_url = (if endswith u ''/v1/messages'' then u else u @ ''/v1/messages'')\<rparr>)"

definition OpenAIRequestHandler :: "string \<Rightarrow> string \<Rightarrow> openai_handler" where
  "OpenAIRequestHandler url key =
     (let u = rstrip_slash url;
          u = (if \<not> endswith u ''/v1'' then u @ ''/v1'' else u)
      in \<lparr>api_url = u, api_key = key, session = None,
          chat_endpoint = u @ ''/chat/completions''\<rparr>)"

section \<open>The request normalizer\<close>

text \<open>
  \<^verbatim>\<open>_standardize_cache_control\<close> (anthropic\_proxy.py) and \<^verbatim>\<open>_add_cache_control_to_messages\<close>
  (openrouter\_proxy.py) are the same text but for the directive they attach, so one
  definition, \<open>place_cache_control\<close>, takes the directive; the two source functions are its
  instances below. \<open>py_str\<close> is Python's builtin \<^verbatim>\<open>str\<close>, a parameter: no result here depends
  on the text it returns.

  The first loop: a shallow copy of the message without its \<^verbatim>\<open>cache_control\<close> key, and, when
  the content is a list, a new list where every dict block is rebuilt without that key.
  \<^verbatim>\<open>message.get('content', [])\<close> gives a list also when the key is missing, so such a message
  gets \<^verbatim>\<open>'content': []\<close>. A message that is not a dict has no \<^verbatim>\<open>copy\<close> or no \<^verbatim>\<open>get\<close>
  (\<^verbatim>\<open>AttributeError\<close>); a list that holds the string \<^verbatim>\<open>'cache_control'\<close> fails earlier, at
  \<^verbatim>\<open>del\<close> (\<^verbatim>\<open>TypeError\<close>).
\<close>

fun clean_block :: "json \<Rightarrow> json" where
  "clean_block (JDict content_block) = JDict (AList.delete ''cache_control'' content_block)"
| "clean_block content_block = content_block"

fun clean_message :: "json \<Rightarrow> exn + pydict" where
  "clean_message (JDict message) =
     (let cleaned_message =
            (if py_in ''cache_control'' message then AList.delete ''cache_control'' message
             else message)
      in case py_get message ''content'' (JList []) of
           JList content \<Rightarrow>
             Inr (AList.update ''content'' (JList (map clean_block content)) cleaned_message)
         | _ \<Rightarrow> Inr cleaned_message)"
| "clean_message (JList xs) =
     (if JStr ''cache_control'' \<in> set xs
      then Inl (TypeError ''list indices must be integers or slices, not str'')
      else Inl (AttributeError ''list object has no attribute get''))"
| "clean_message _ = Inl (AttributeError ''object has no attribute copy'')"

fun clean_messages :: "json list \<Rightarrow> exn + pydict list" where
  "clean_messages [] = Inr []"
| "clean_messages (message # messages) =
     (case clean_message message of
        Inl e \<Rightarrow> Inl e
      | Inr cleaned_message \<Rightarrow>
          (case clean_messages messages of
             Inl e \<Rightarrow> Inl e
           | Inr standardized_messages \<Rightarrow> Inr (cleaned_message # standardized_messages)))"

text \<open>
  The second step works on the last cleaned message. In the branch of a non-empty list the
  source mutates the list object that the message holds (\<^verbatim>\<open>content[-1]['cache_control'] = ...\<close>
  or \<^verbatim>\<open>content.append(...)\<close>), so the message's content changes. In the branch of an empty
  list it only rebinds the local variable \<^verbatim>\<open>content\<close>: the message is left as it is.
\<close>

definition text_block :: "string \<Rightarrow> json \<Rightarrow> json" where
  "text_block t directive =
     JDict [(''type'', JStr ''text''), (''text'', JStr t), (''cache_control'', directive)]"

definition mark_last_message :: "(json \<Rightarrow> string) \<Rightarrow> json \<Rightarrow> pydict \<Rightarrow> pydict" where
  "mark_last_message py_str directive last_message =
     (case py_get last_message ''content'' (JList []) of
        JList content \<Rightarrow>
          (if content \<noteq> [] then
             (case last content of
                JDict block \<Rightarrow>
                  AList.update ''content''
                    (JList (butlast content @
                       [JDict (AList.update ''cache_control'' directive block)]))
                    last_message
              | x \<Rightarrow>
                  AList.update ''content''
                    (JList (content @
                       [text_block (if truthy x then py_str x else []) directive]))
                    last_message)
           else last_message)
      | JStr s \<Rightarrow> AList.update ''content'' (JList [text_block s directive]) last_message
      | _ \<Rightarrow> AList.update ''content'' (JList [text_block [] directive]) last_message)"

definition place_cache_control ::
  "(json \<Rightarrow> string) \<Rightarrow> json \<Rightarrow> json list \<Rightarrow> exn + json list" where
  "place_cache_control py_str directive messages =
     (if messages = [] then Inr messages
      else case clean_messages messages of
             Inl e \<Rightarrow> Inl e
           | Inr standardized_messages \<Rightarrow>
               Inr (map JDict
                 (if standardized_messages \<noteq> [] then
                    butlast standardized_messages @
                      [mark_last_message py_str directive (last standardized_messages)]
                  else standardized_messages)))"

definition ttl_directive :: "string \<Rightarrow> json" where
  "ttl_directive ttl = JDict [(''type'', JStr ''ephemeral''), (''ttl'', JStr ttl)]"

definition bare_directive :: json where
  "bare_directive = JDict [(''type'', JStr ''ephemeral'')]"

definition standardize_cache_control ::
  "(json \<Rightarrow> string) \<Rightarrow> 'a anthropic_handler_scheme \<Rightarrow> json list \<Rightarrow> exn + json list" where
  "standardize_cache_control py_str self messages =
     place_cache_control py_str (ttl_directive (cache_control_ttl self)) messages"

definition add_cache_control_to_messages ::
  "(json \<Rightarrow> string) \<Rightarrow> json list \<Rightarrow> exn + json list" where
  "add_cache_control_to_messages py_str messages =
     place_cache_control py_str bare_directive messages"

text \<open>
  The effect of the first loop on one dict message, as one expression (for the proofs).
\<close>

definition strip_message :: "pydict \<Rightarrow> pydict" where
  "strip_message m =
     (case py_get m ''content'' (JList []) of
        JList content \<Rightarrow>
          AList.update ''content'' (JList (map clean_block content))
            (AList.delete ''cache_control'' m)
      | _ \<Rightarrow> AList.delete ''cache_control'' m)"

text \<open>
  What a reader of the normalizer's output counts as a cache directive is what
  \<^verbatim>\<open>_has_cache_control\<close> looks for: a \<^verbatim>\<open>cache_control\<close> key of a message, or of a dict block
  of a message whose content is a list.
\<close>

definition is_dict :: "json \<Rightarrow> bool" where
  "is_dict v = (case v of JDict _ \<Rightarrow> True | _ \<Rightarrow> False)"

definition block_has_directive :: "json \<Rightarrow> bool" where
  "block_has_directive content_block =
     (case content_block of JDict d \<Rightarrow> py_in ''cache_control'' d | _ \<Rightarrow> False)"

definition content_blocks :: "pydict \<Rightarrow> json list" where
  "content_blocks message =
     (case py_get message ''content'' (JList []) of JList content \<Rightarrow> content | _ \<Rightarrow> [])"

definition has_cache_control :: "pydict list \<Rightarrow> bool" where
  "has_cache_control messages =
     list_ex (\<lambda>message. py_in ''cache_control'' message \<or>
                list_ex block_has_directive (content_blocks message)) messages"

definition count_message :: "json \<Rightarrow> nat" where
  "count_message message =
     (case message of
        JDict m \<Rightarrow>
          (if py_in ''cache_control'' m then 1 else 0) +
          length (filter block_has_directive (content_blocks m))
      | _ \<Rightarrow> 0)"

definition count_cache_control :: "json list \<Rightarrow> nat" where
  "count_cache_control messages = sum_list (map count_message messages)"


section \<open>Header preparation\<close>

text \<open>
  \<^verbatim>\<open>_prepare_headers\<close> of the two handlers. The Anthropic one reads three keys of the caller's
  headers (\<^verbatim>\<open>anthropic-version\<close>, \<^verbatim>\<open>anthropic-beta\<close>, \<^verbatim>\<open>user-agent\<close>); the OpenRouter one reads
  none. The value of \<^verbatim>\<open>X-Title\<close> ends in two CJK characters, written here as their UTF-8
  bytes.
\<close>

definition anthropic_prepare_headers ::
  "'a anthropic_handler_scheme \<Rightarrow> (string \<times> string) list \<Rightarrow> (string \<times> string) list" where
  "anthropic_prepare_headers self original_headers =
     (let headers = [];
          headers = AList.update ''x-api-key'' (api_key self) headers;
          headers = AList.update ''anthropic-version''
                      (case map_of original_headers ''anthropic-version'' of
                         None \<Rightarrow> ''2023-06-01'' | Some v \<Rightarrow> v) headers;
          headers = AList.update ''content-type'' ''application/json'' headers
      in fold (\<lambda>header headers.
                 case map_of original_headers header of
                   None \<Rightarrow> headers
                 | Some v \<Rightarrow> AList.update header v headers)
           [''anthropic-beta'', ''user-agent''] headers)"

definition x_title :: string where
  "x_title = ''One hub '' @ [CHR 0xE7, CHR 0xAB, CHR 0x99, CHR 0xE7, CHR 0x82, CHR 0xB9]"

definition openai_prepare_headers ::
  "'a openai_handler_scheme \<Rightarrow> (string \<times> string) list \<Rightarrow> (string \<times> string) list" where
  "openai_prepare_headers self original_headers =
     (let headers = [];
          headers = AList.update ''Authorization'' (''Bearer '' @ api_key self) headers;
          headers = AList.update ''Content-Type'' ''application/json'' headers;
          headers = AList.update ''HTTP-Referer'' ''https://api.pezayo.com'' headers;
          headers = AList.update ''X-Title'' x_title headers
      in headers)"

text \<open>
  The caller's credential headers: \<^verbatim>\<open>x-api-key\<close> and \<^verbatim>\<open>Authorization\<close>, in any letter case.
\<close>

definition lower_char :: "char \<Rightarrow> char" where
  "lower_char c =
     (case map_of (zip ''ABCDEFGHIJKLMNOPQRSTUVWXYZ'' ''abcdefghijklmnopqrstuvwxyz'') c of
        Some l \<Rightarrow> l
      | None \<Rightarrow> c)"

definition is_credential_header :: "string \<Rightarrow> bool" where
  "is_credential_header name =
     (map lower_char name = ''x-api-key'' \<or> map lower_char name = ''authorization'')"

text \<open>
  Two header dicts differ only in credential headers when every other name, of either dict,
  has the same entry in both.
\<close>

definition same_but_credentials ::
  "(string \<times> string) list \<Rightarrow> (string \<times> string) list \<Rightarrow> bool" where
  "same_but_credentials h1 h2 =
     list_all (\<lambda>name. is_credential_header name \<or> map_of h1 name = map_of h2 name)
       (map fst h1 @ map fst h2)"

section \<open>The upstream and the errors\<close>

text \<open>
  One POST, as the forwarders see it: \<^verbatim>\<open>session.post\<close> raises, or it gives a response.
  Of a response the code uses \<^verbatim>\<open>raise_for_status()\<close> (it raises aiohttp's
  \<^verbatim>\<open>ClientResponseError\<close> for an error status), \<^verbatim>\<open>await response.json()\<close>, and the successive
  \<^verbatim>\<open>await response.content.read(8192)\<close>; a read gives bytes (none at the end of the body)
  or raises. The upstream is a function from the request sent to that behaviour, and every
  forwarder returns, beside its result, the list of requests it sent.
\<close>

datatype read_event = ReadReturns string | ReadRaises exn

record response =
  raise_for_status :: "exn option"
  json_body :: "exn + json"
  content_reads :: "read_event list"

datatype post_result = PostRaises exn | PostResponds response

record sent_request =
  req_url :: string
  req_headers :: "(string \<times> string) list"
  req_json :: pydict

datatype 'a outcome = Return 'a | Raise exn

fun exn_str :: "exn \<Rightarrow> string" where
  "exn_str (TimeoutError s) = s"
| "exn_str (ServerTimeoutError s) = s"
| "exn_str (ClientResponseError status message s) = s"
| "exn_str (ClientPayloadError s) = s"
| "exn_str (ClientError s) = s"
| "exn_str (JSONDecodeError s) = s"
| "exn_str (ValueError s) = s"
| "exn_str (KeyError s) = s"
| "exn_str (AttributeError s) = s"
| "exn_str (TypeError s) = s"
| "exn_str (OtherException s) = s"

definition is_TimeoutError :: "exn \<Rightarrow> bool" where
  "is_TimeoutError e =
     (case e of TimeoutError _ \<Rightarrow> True | ServerTimeoutError _ \<Rightarrow> True | _ \<Rightarrow> False)"

definition is_ServerTimeoutError :: "exn \<Rightarrow> bool" where
  "is_ServerTimeoutError e = (case e of ServerTimeoutError _ \<Rightarrow> True | _ \<Rightarrow> False)"

definition is_ClientResponseError :: "exn \<Rightarrow> bool" where
  "is_ClientResponseError e = (case e of ClientResponseError _ _ _ \<Rightarrow> True | _ \<Rightarrow> False)"

definition is_ClientPayloadError :: "exn \<Rightarrow> bool" where
  "is_ClientPayloadError e = (case e of ClientPayloadError _ \<Rightarrow> True | _ \<Rightarrow> False)"

definition is_ClientError :: "exn \<Rightarrow> bool" where
  "is_ClientError e =
     (case e of
        ServerTimeoutError _ \<Rightarrow> True
      | ClientResponseError _ _ _ \<Rightarrow> True
      | ClientPayloadError _ \<Rightarrow> True
      | ClientError _ \<Rightarrow> True
      | _ \<Rightarrow> False)"

definition is_JSONDecodeError :: "exn \<Rightarrow> bool" where
  "is_JSONDecodeError e = (case e of JSONDecodeError _ \<Rightarrow> True | _ \<Rightarrow> False)"

definition is_ValueError :: "exn \<Rightarrow> bool" where
  "is_ValueError e =
     (case e of ValueError _ \<Rightarrow> True | JSONDecodeError _ \<Rightarrow> True | _ \<Rightarrow> False)"

definition exn_status :: "exn \<Rightarrow> nat" where
  "exn_status e = (case e of ClientResponseError status _ _ \<Rightarrow> status | _ \<Rightarrow> 0)"

definition exn_message :: "exn \<Rightarrow> string" where
  "exn_message e = (case e of ClientResponseError _ message _ \<Rightarrow> message | _ \<Rightarrow> [])"

fun str_nat :: "nat \<Rightarrow> string" where
  "str_nat n =
     (if n < 10 then [''0123456789'' ! n]
      else str_nat (n div 10) @ [''0123456789'' ! (n mod 10)])"

declare str_nat.simps [simp del]

definition error_envelope :: "string \<Rightarrow> string \<Rightarrow> json" where
  "error_envelope kind message =
     JDict [(''error'', JDict [(''type'', JStr kind), (''message'', JStr message)])]"

text \<open>
  \<^verbatim>\<open>json.dumps\<close> of the dict \<^verbatim>\<open>{"error": {"type": kind, "message": message}}\<close>, with the
  default \<^verbatim>\<open>ensure_ascii\<close>: a string is written between double quotes; the double quote, the
  backslash and the five control characters with a short form are escaped with a backslash,
  every other character outside the printable ASCII range as \<^verbatim>\<open>\u00XX\<close>; items are
  separated by \<^verbatim>\<open>", "\<close> and a key from its value by \<^verbatim>\<open>": "\<close>.
\<close>

definition escape_char :: "char \<Rightarrow> string" where
  "escape_char c =
     (if c = CHR 0x22 then [CHR 0x5C, CHR 0x22]
      else if c = CHR 0x5C then [CHR 0x5C, CHR 0x5C]
      else if c = CHR 0x0A then [CHR 0x5C, CHR ''n'']
      else if c = CHR 0x0D then [CHR 0x5C, CHR ''r'']
      else if c = CHR 0x09 then [CHR 0x5C, CHR ''t'']
      else if c = CHR 0x08 then [CHR 0x5C, CHR ''b'']
      else if c = CHR 0x0C then [CHR 0x5C, CHR ''f'']
      else if (32::nat) \<le> of_char c \<and> of_char c \<le> (126::nat) then [c]
      else [CHR 0x5C, CHR ''u'', CHR ''0'', CHR ''0'',
            ''0123456789abcdef'' ! (of_char c div 16),
            ''0123456789abcdef'' ! (of_char c mod 16)])"

definition encode_basestring_ascii :: "string \<Rightarrow> string" where
  "encode_basestring_ascii s = [CHR 0x22] @ concat (map escape_char s) @ [CHR 0x22]"

definition dumps_error_data :: "string \<Rightarrow> string \<Rightarrow> string" where
  \<open>dumps_error_data kind message =
     ''{"error": {"type": '' @ encode_basestring_ascii kind @
     '', "message": '' @ encode_basestring_ascii message @ ''}}''\<close>

definition utf8_encode :: "string \<Rightarrow> string" where
  "utf8_encode s =
     concat (map (\<lambda>c. if of_char c < (128::nat) then [c]
                        else [char_of (192 + of_char c div (64::nat)),
                              char_of (128 + of_char c mod (64::nat))]) s)"

definition anthropic_error_chunk :: "string \<Rightarrow> string \<Rightarrow> string" where
  "anthropic_error_chunk kind message =
     utf8_encode (''event: error\<newline>data: '' @ dumps_error_data kind message @
                  ''\<newline>\<newline>'')"

definition openai_error_chunk :: "string \<Rightarrow> string \<Rightarrow> string" where
  "openai_error_chunk kind message =
     utf8_encode (''data: '' @ dumps_error_data kind message @ ''\<newline>\<newline>'')"

section \<open>The HTTP session\<close>

text \<open>
  \<^verbatim>\<open>_get_session\<close> of the OpenRouter handler returns \<^verbatim>\<open>self.session\<close> when there is one and it
  is not closed. Otherwise it builds a session, and for it a connector:
  \<^verbatim>\<open>aiohttp.TCPConnector(limit=50, limit_per_host=10, ttl_dns_cache=300, use_dns_cache=True,
  keepalive_timeout=30, enable_cleanup_closed=True, proxy=proxy_url)\<close>, where \<^verbatim>\<open>proxy_url\<close> is
  read from the environment and may be \<^verbatim>\<open>None\<close>. The constructor of aiohttp's \<^verbatim>\<open>TCPConnector\<close>
  takes the keyword parameters listed below (the union over the releases of aiohttp 3) and
  no \<^verbatim>\<open>**kwargs\<close>; Python raises \<^verbatim>\<open>TypeError\<close> at a call with any other keyword, whatever its
  value, before the body of the constructor runs. So the assignment to \<^verbatim>\<open>self.session\<close> is
  not reached, and the handler is the same after the call as before it.
\<close>

definition TCPConnector_parameters :: "string list" where
  "TCPConnector_parameters =
     [''verify_ssl'', ''fingerprint'', ''use_dns_cache'', ''ttl_dns_cache'', ''family'',
      ''ssl_context'', ''ssl'', ''local_addr'', ''resolver'', ''keepalive_timeout'',
      ''force_close'', ''limit'', ''limit_per_host'', ''enable_cleanup_closed'', ''loop'',
      ''timeout_ceil_threshold'', ''happy_eyeballs_delay'', ''interleave'',
      ''socket_factory'', ''ssl_shutdown_timeout'']"

definition TCPConnector :: "string list \<Rightarrow> exn + unit" where
  "TCPConnector keywords =
     (case filter (\<lambda>k. k \<notin> set TCPConnector_parameters) keywords of
        [] \<Rightarrow> Inr ()
      | k # _ \<Rightarrow>
          Inl (TypeError (''TCPConnector.__init__() got an unexpected keyword argument '' @
                          [CHR 0x27] @ k @ [CHR 0x27])))"

definition openai_new_session :: "exn + client_session" where
  "openai_new_session =
     (case TCPConnector [''limit'', ''limit_per_host'', ''ttl_dns_cache'', ''use_dns_cache'',
                         ''keepalive_timeout'', ''enable_cleanup_closed'', ''proxy''] of
        Inl e \<Rightarrow> Inl e
      | Inr connector \<Rightarrow> Inr \<lparr>session_closed = False\<rparr>)"

definition openai_get_session :: "'a openai_handler_scheme \<Rightarrow> exn + client_session" where
  "openai_get_session self =
     (case session self of
        None \<Rightarrow> openai_new_session
      | Some s \<Rightarrow> if session_closed s then openai_new_session else Inr s)"

section \<open>The unary forwarders\<close>

text \<open>
  The body of the \<^verbatim>\<open>try\<close> of both unary forwarders: POST, \<^verbatim>\<open>raise_for_status()\<close>,
  \<^verbatim>\<open>await response.json()\<close>. It gives the parsed body or the exception that left it.
\<close>

definition post_json :: "(sent_request \<Rightarrow> post_result) \<Rightarrow> sent_request \<Rightarrow> exn + json" where
  "post_json upstream request =
     (case upstream request of
        PostRaises e \<Rightarrow> Inl e
      | PostResponds response \<Rightarrow>
          (case raise_for_status response of
             Some e \<Rightarrow> Inl e
           | None \<Rightarrow> json_body response))"

text \<open>
  \<^verbatim>\<open>_forward_to_anthropic\<close>. The \<^verbatim>\<open>except\<close> clauses are tried in the order of the source. The
  clause for \<^verbatim>\<open>ClientResponseError\<close> first logs \<^verbatim>\<open>await e.text()\<close>; aiohttp's
  \<^verbatim>\<open>ClientResponseError\<close> has the attributes \<^verbatim>\<open>request_info\<close>, \<^verbatim>\<open>history\<close>, \<^verbatim>\<open>status\<close>,
  \<^verbatim>\<open>message\<close> and \<^verbatim>\<open>headers\<close> and no method \<^verbatim>\<open>text\<close>, so the clause raises \<^verbatim>\<open>AttributeError\<close>
  before it builds its envelope, and an exception raised inside an \<^verbatim>\<open>except\<close> clause is not
  caught by the clauses after it.
\<close>

definition forward_to_anthropic ::
  "'a anthropic_handler_scheme \<Rightarrow> (sent_request \<Rightarrow> post_result) \<Rightarrow> pydict \<Rightarrow>
   (string \<times> string) list \<Rightarrow> json outcome \<times> sent_request list" where
  "forward_to_anthropic self upstream request_data headers =
     (let prepared_headers = anthropic_prepare_headers self headers;
          request = \<lparr>req_url = messages_endpoint_url self, req_headers = prepared_headers,
                     req_json = request_data\<rparr>
      in (case post_json upstream request of
            Inr response_data \<Rightarrow> Return response_data
          | Inl e \<Rightarrow>
              if is_TimeoutError e then
                Return (error_envelope ''timeout_error''
                          ''Request to Anthropic API timed out after 120 seconds'')
              else if is_ClientResponseError e then
                Raise (AttributeError ''ClientResponseError object has no attribute text'')
              else if is_ClientError e then
                Return (error_envelope ''network_error'' (''Network error: '' @ exn_str e))
              else
                Return (error_envelope ''internal_error''
                          (''Internal server error: '' @ exn_str e)),
          [request]))"

text \<open>
  \<^verbatim>\<open>_forward_to_api\<close>. The session is asked for before the \<^verbatim>\<open>try\<close>: an exception of
  \<^verbatim>\<open>_get_session\<close> leaves the forwarder, and nothing is sent. Inside the \<^verbatim>\<open>try\<close> there is one
  clause, \<^verbatim>\<open>except Exception\<close>, for every failure.
\<close>

definition forward_to_api ::
  "'a openai_handler_scheme \<Rightarrow> (sent_request \<Rightarrow> post_result) \<Rightarrow> pydict \<Rightarrow>
   (string \<times> string) list \<Rightarrow> json outcome \<times> sent_request list" where
  "forward_to_api self upstream request_data headers =
     (let prepared_headers = openai_prepare_headers self headers
      in case openai_get_session self of
           Inl e \<Rightarrow> (Raise e, [])
         | Inr http_session \<Rightarrow>
             (let request = \<lparr>req_url = chat_endpoint self, req_headers = prepared_headers,
                             req_json = request_data\<rparr>
              in (case post_json upstream request of
                    Inr response_data \<Rightarrow> Return response_data
                  | Inl e \<Rightarrow>
                      Return (error_envelope ''api_error''
                                (''API request failed: '' @ exn_str e)),
                  [request])))"

section \<open>The streaming forwarders\<close>

text \<open>
  A generator's run is the list of the chunks it yields, in order, and the exception that
  ends it, if one does. The relay loop reads until a read gives no bytes or raises; a body
  whose events are used up is at its end.
\<close>

fun relay :: "read_event list \<Rightarrow> string list \<times> exn option" where
  "relay [] = ([], None)"
| "relay (ReadReturns chunk # reads) =
     (if chunk = [] then ([], None)
      else (chunk # fst (relay reads), snd (relay reads)))"
| "relay (ReadRaises e # reads) = ([], Some e)"

definition anthropic_stream_handlers :: "exn \<Rightarrow> string" where
  "anthropic_stream_handlers e =
     (if is_TimeoutError e then
        anthropic_error_chunk ''timeout_error'' ''Request to Anthropic API timed out''
      else if is_ClientResponseError e then
        anthropic_error_chunk ''api_error''
          (''Anthropic API returned status '' @ str_nat (exn_status e) @ '': '' @ exn_str e)
      else if is_ClientError e then
        anthropic_error_chunk ''network_error'' (''Network error: '' @ exn_str e)
      else
        anthropic_error_chunk ''unknown_error'' (''Unexpected error: '' @ exn_str e))"

definition forward_stream_to_anthropic ::
  "'a anthropic_handler_scheme \<Rightarrow> (sent_request \<Rightarrow> post_result) \<Rightarrow> pydict \<Rightarrow>
   (string \<times> string) list \<Rightarrow> (string list \<times> exn option) \<times> sent_request list" where
  "forward_stream_to_anthropic self upstream request_data headers =
     (let prepared_headers = anthropic_prepare_headers self headers;
          request = \<lparr>req_url = messages_endpoint_url self, req_headers = prepared_headers,
                     req_json = request_data\<rparr>
      in (case upstream request of
            PostRaises e \<Rightarrow> ([anthropic_stream_handlers e], None)
          | PostResponds response \<Rightarrow>
              (case raise_for_status response of
                 Some e \<Rightarrow> ([anthropic_stream_handlers e], None)
               | None \<Rightarrow>
                   (case relay (content_reads response) of
                      (chunks, None) \<Rightarrow> (chunks, None)
                    | (chunks, Some e) \<Rightarrow>
                        if is_ClientPayloadError e \<or> is_TimeoutError e then
                          (chunks @
                             [anthropic_error_chunk ''stream_interrupted''
                                (''Streaming interrupted due to: '' @ exn_str e)], None)
                        else (chunks @ [anthropic_stream_handlers e], None))),
          [request]))"

text \<open>
  \<^verbatim>\<open>_forward_stream_to_api\<close>. As in the unary forwarder the session is asked for before the
  \<^verbatim>\<open>try\<close>; the body of a generator runs when its first chunk is asked for, so an exception
  of \<^verbatim>\<open>_get_session\<close> ends the stream there, before any chunk.
\<close>

definition openai_stream_handlers :: "exn \<Rightarrow> string" where
  "openai_stream_handlers e =
     (if is_ClientResponseError e then
        openai_error_chunk ''http_error''
          (''HTTP '' @ str_nat (exn_status e) @ '': '' @ exn_message e)
      else if is_TimeoutError e \<or> is_ServerTimeoutError e then
        openai_error_chunk ''timeout_error'' (''Request timeout: '' @ exn_str e)
      else
        openai_error_chunk ''api_error'' (''Streaming request failed: '' @ exn_str e))"

definition forward_stream_to_api ::
  "'a openai_handler_scheme \<Rightarrow> (sent_request \<Rightarrow> post_result) \<Rightarrow> pydict \<Rightarrow>
   (string \<times> string) list \<Rightarrow> (string list \<times> exn option) \<times> sent_request list" where
  "forward_stream_to_api self upstream request_data headers =
     (let prepared_headers = openai_prepare_headers self headers
      in case openai_get_session self of
           Inl e \<Rightarrow> (([], Some e), [])
         | Inr http_session \<Rightarrow>
             (let request = \<lparr>req_url = chat_endpoint self, req_headers = prepared_headers,
                             req_json = request_data\<rparr>
              in (case upstream request of
                    PostRaises e \<Rightarrow> ([openai_stream_handlers e], None)
                  | PostResponds response \<Rightarrow>
                      (case raise_for_status response of
                         Some e \<Rightarrow> ([openai_stream_handlers e], None)
                       | None \<Rightarrow>
                           (case relay (content_reads response) of
                              (chunks, None) \<Rightarrow> (chunks, None)
                            | (chunks, Some e) \<Rightarrow>
                                if is_ClientPayloadError e \<or> is_TimeoutError e then
                                  (chunks @
                                     [openai_error_chunk ''stream_interrupted''
                                        (''Streaming interrupted due to: '' @ exn_str e)],
                                   None)
                                else (chunks @ [openai_stream_handlers e], None))),
                  [request])))"

section \<open>Validation and the two operations\<close>

fun validate_messages :: "json list \<Rightarrow> bool" where
  "validate_messages [] = True"
| "validate_messages (JDict message # messages) =
     (if \<not> py_in ''role'' message \<or> \<not> py_in ''content'' message then False
      else validate_messages messages)"
| "validate_messages (message # messages) = False"

definition validate_anthropic_request :: "pydict \<Rightarrow> bool" where
  "validate_anthropic_request request_data =
     (if \<not> py_in ''model'' request_data then False
      else if \<not> py_in ''messages'' request_data then False
      else case py_get request_data ''messages'' (JList []) of
             JList messages \<Rightarrow>
               if length messages = 0 then False else validate_messages messages
           | _ \<Rightarrow> False)"

definition validate_openai_request :: "pydict \<Rightarrow> bool" where
  "validate_openai_request request_data =
     (if \<not> py_in ''model'' request_data then False
      else if \<not> py_in ''messages'' request_data then False
      else case py_get request_data ''messages'' (JList []) of
             JList messages \<Rightarrow>
               if length messages = 0 then False else validate_messages messages
           | _ \<Rightarrow> False)"

text \<open>
  \<^verbatim>\<open>handle_request\<close> and \<^verbatim>\<open>handle_stream_request\<close> of the Anthropic handler. After a passed
  validation \<^verbatim>\<open>messages\<close> is a list; the other branch of the case stands for the normalizer
  called on a value that is no list, which a validated request never gives.
\<close>

definition normalized_request ::
  "(json list \<Rightarrow> exn + json list) \<Rightarrow> pydict \<Rightarrow> exn + pydict" where
  "normalized_request normalizer request_data =
     (case py_get request_data ''messages'' (JList []) of
        JList messages \<Rightarrow>
          (case normalizer messages of
             Inl e \<Rightarrow> Inl e
           | Inr standardized_messages \<Rightarrow>
               Inr (AList.update ''messages'' (JList standardized_messages) request_data))
      | _ \<Rightarrow> Inl (TypeError ''messages is not a list''))"

definition anthropic_handle_request ::
  "(json \<Rightarrow> string) \<Rightarrow> 'a anthropic_handler_scheme \<Rightarrow> (sent_request \<Rightarrow> post_result) \<Rightarrow>
   pydict \<Rightarrow> (string \<times> string) list \<Rightarrow> json outcome \<times> sent_request list" where
  "anthropic_handle_request py_str self upstream request_data headers =
     (if \<not> validate_anthropic_request request_data then
        (Raise (ValueError ''Invalid Anthropic request format''), [])
      else case normalized_request (standardize_cache_control py_str self) request_data of
             Inl e \<Rightarrow> (Raise e, [])
           | Inr standardized_request \<Rightarrow>
               forward_to_anthropic self upstream standardized_request headers)"

definition anthropic_handle_stream_request ::
  "(json \<Rightarrow> string) \<Rightarrow> 'a anthropic_handler_scheme \<Rightarrow> (sent_request \<Rightarrow> post_result) \<Rightarrow>
   pydict \<Rightarrow> (string \<times> string) list \<Rightarrow> (string list \<times> exn option) \<times> sent_request list" where
  "anthropic_handle_stream_request py_str self upstream request_data headers =
     (if \<not> validate_anthropic_request request_data then
        (([], Some (ValueError ''Invalid Anthropic request format'')), [])
      else case normalized_request (standardize_cache_control py_str self) request_data of
             Inl e \<Rightarrow> (([], Some e), [])
           | Inr standardized_request \<Rightarrow>
               forward_stream_to_anthropic self upstream standardized_request headers)"

text \<open>
  The OpenRouter handler's operations. The streaming one also turns the \<^verbatim>\<open>thinking\<close> field
  into \<^verbatim>\<open>reasoning\<close>; \<^verbatim>\<open>claude_reasoning['type']\<close> raises \<^verbatim>\<open>KeyError\<close> on a dict without the key
  and \<^verbatim>\<open>TypeError\<close> on a value that is no dict.
\<close>

definition py_getitem :: "json \<Rightarrow> string \<Rightarrow> exn + json" where
  "py_getitem v k =
     (case v of
        JDict d \<Rightarrow> (case map_of d k of Some x \<Rightarrow> Inr x | None \<Rightarrow> Inl (KeyError k))
      | _ \<Rightarrow> Inl (TypeError ''indices must be integers, or the object is not subscriptable''))"

definition openai_handle_request ::
  "(json \<Rightarrow> string) \<Rightarrow> 'a openai_handler_scheme \<Rightarrow> (sent_request \<Rightarrow> post_result) \<Rightarrow>
   pydict \<Rightarrow> (string \<times> string) list \<Rightarrow> json outcome \<times> sent_request list" where
  "openai_handle_request py_str self upstream request_data headers =
     (if \<not> validate_openai_request request_data then
        (Raise (ValueError ''Invalid OpenAI request format''), [])
      else case normalized_request (add_cache_control_to_messages py_str) request_data of
             Inl e \<Rightarrow> (Raise e, [])
           | Inr cached_request \<Rightarrow> forward_to_api self upstream cached_request headers)"

definition openai_handle_stream_request ::
  "(json \<Rightarrow> string) \<Rightarrow> 'a openai_handler_scheme \<Rightarrow> (sent_request \<Rightarrow> post_result) \<Rightarrow>
   pydict \<Rightarrow> (string \<times> string) list \<Rightarrow> (string list \<times> exn option) \<times> sent_request list" where
  "openai_handle_stream_request py_str self upstream request_data headers =
     (if \<not> validate_openai_request request_data then
        (([], Some (ValueError ''Invalid OpenAI request format'')), [])
      else case normalized_request (add_cache_control_to_messages py_str) request_data of
             Inl e \<Rightarrow> (([], Some e), [])
           | Inr cached_request \<Rightarrow>
               (let claude_reasoning =
                      py_get cached_request ''thinking''
                        (JDict [(''type'', JStr ''disabled''), (''budget_tokens'', JInt 3276)])
                in case py_getitem claude_reasoning ''type'' of
                     Inl e \<Rightarrow> (([], Some e), [])
                   | Inr ty \<Rightarrow>
                       (case py_getitem claude_reasoning ''budget_tokens'' of
                          Inl e \<Rightarrow> (([], Some e), [])
                        | Inr budget \<Rightarrow>
                            forward_stream_to_api self upstream
                              (AList.update ''reasoning''
                                 (JDict [(''enabled'', JBool (ty = JStr ''enabled'')),
                                         (''max_tokens'', budget)])
                                 cached_request)
                              headers)))"

section \<open>The Anthropic messages route\<close>

text \<open>
  \<^verbatim>\<open>messages_endpoint\<close>, from the parsed body on (the handler is initialised, the content
  type was accepted and \<^verbatim>\<open>request.json()\<close> returned \<open>request_data\<close>). Every exception raised
  inside its \<^verbatim>\<open>try\<close> becomes an \<^verbatim>\<open>HTTPException\<close>: status 400 for a \<^verbatim>\<open>ValueError\<close>, 500 for any
  other. The generator of a streaming request runs when the response is sent, outside the
  \<^verbatim>\<open>try\<close>: its chunks and the exception that ends it, if any, are the response.
\<close>

datatype http_response =
    JSONResponse nat json
  | HTTPException nat string
  | StreamingResponse "string list" "exn option"

fun contains_sub :: "string \<Rightarrow> string \<Rightarrow> bool" where
  "contains_sub sub [] = (sub = [])"
| "contains_sub sub (c # cs) = (take (length sub) (c # cs) = sub \<or> contains_sub sub cs)"

definition py_contains :: "string \<Rightarrow> json \<Rightarrow> exn + bool" where
  "py_contains k v =
     (case v of
        JDict d \<Rightarrow> Inr (py_in k d)
      | JList xs \<Rightarrow> Inr (JStr k \<in> set xs)
      | JStr s \<Rightarrow> Inr (contains_sub k s)
      | _ \<Rightarrow> Inl (TypeError ''argument is not iterable''))"

definition except_clauses :: "exn \<Rightarrow> http_response" where
  "except_clauses e =
     (if is_JSONDecodeError e then HTTPException 400 ''Invalid JSON in request body''
      else if is_ValueError e then HTTPException 400 (exn_str e)
      else HTTPException 500 ''Internal server error'')"

definition error_status_code :: "json \<Rightarrow> nat" where
  "error_status_code error_type =
     (if error_type = JStr ''api_error'' then 400
      else if error_type = JStr ''network_error'' then 503
      else if error_type = JStr ''timeout_error'' then 408
      else if error_type = JStr ''json_decode_error'' then 502
      else 500)"

definition unary_response :: "json \<Rightarrow> http_response" where
  "unary_response response_data =
     (case py_contains ''error'' response_data of
        Inl e \<Rightarrow> except_clauses e
      | Inr False \<Rightarrow> JSONResponse 200 response_data
      | Inr True \<Rightarrow>
          (case py_getitem response_data ''error'' of
             Inl e \<Rightarrow> except_clauses e
           | Inr (JDict err) \<Rightarrow>
               JSONResponse (error_status_code (py_get err ''type'' (JStr ''unknown_error'')))
                 response_data
           | Inr _ \<Rightarrow> except_clauses (AttributeError ''object has no attribute get'')))"

definition messages_endpoint ::
  "(json \<Rightarrow> string) \<Rightarrow> 'a anthropic_handler_scheme \<Rightarrow> (sent_request \<Rightarrow> post_result) \<Rightarrow>
   (string \<times> string) list \<Rightarrow> json \<Rightarrow> http_response \<times> sent_request list" where
  "messages_endpoint py_str request_handler upstream headers request_data =
     (case request_data of
        JDict d \<Rightarrow>
          (let is_stream = py_get d ''stream'' (JBool False)
           in if \<not> py_in ''top_p'' d then (except_clauses (KeyError ''top_p''), [])
              else
                (let popped = AList.delete ''top_p'' d
                 in if truthy is_stream then
                      (case anthropic_handle_stream_request py_str request_handler upstream
                              popped headers of
                         ((chunks, ending), sent) \<Rightarrow> (StreamingResponse chunks ending, sent))
                    else
                      (case anthropic_handle_request py_str request_handler upstream
                              popped headers of
                         (Raise e, sent) \<Rightarrow> (except_clauses e, sent)
                       | (Return response_data, sent) \<Rightarrow>
                           (unary_response response_data, sent))))
      | _ \<Rightarrow> (except_clauses (AttributeError ''object has no attribute get''), []))"


section \<open>Reading an error frame\<close>

text \<open>
  The consumer's side of a synthesized chunk: a Server-Sent-Event block is a run of
  \<^verbatim>\<open>name: value\<close> lines closed by an empty line; the \<^verbatim>\<open>data\<close> value is read as the JSON
  text of an error envelope, \<^verbatim>\<open>{"error": {"type": ..., "message": ...}}\<close>, whose two strings
  are JSON string literals (RFC 8259: no raw control character, a backslash escape is one
  of \<^verbatim>\<open>" \ / b f n r t\<close> or \<^verbatim>\<open>uXXXX\<close>). The reader accepts the separators \<^verbatim>\<open>json.dumps\<close>
  writes, which is less than a JSON parser accepts.
\<close>

fun split_on :: "char \<Rightarrow> string \<Rightarrow> string list" where
  "split_on sep [] = [[]]"
| "split_on sep (c # cs) =
     (if c = sep then [] # split_on sep cs
      else (case split_on sep cs of
              l # ls \<Rightarrow> (c # l) # ls
            | [] \<Rightarrow> [[c]]))"

fun field_of_line :: "string \<Rightarrow> (string \<times> string) option" where
  "field_of_line [] = None"
| "field_of_line (c # cs) =
     (if c = CHR '':'' then
        Some ([], (case cs of sp # rest \<Rightarrow> if sp = CHR '' '' then rest else cs | [] \<Rightarrow> cs))
      else map_option (\<lambda>(name, v). (c # name, v)) (field_of_line cs))"

fun those_fields :: "string list \<Rightarrow> (string \<times> string) list option" where
  "those_fields [] = Some []"
| "those_fields (l # ls) =
     (case field_of_line l of
        None \<Rightarrow> None
      | Some f \<Rightarrow> map_option ((#) f) (those_fields ls))"

definition sse_fields :: "string \<Rightarrow> (string \<times> string) list option" where
  "sse_fields chunk =
     (let ls = split_on CHR 0x0A chunk
      in if 3 \<le> length ls \<and> last ls = [] \<and> last (butlast ls) = []
         then those_fields (butlast (butlast ls))
         else None)"

definition hexval :: "char \<Rightarrow> nat option" where
  "hexval c =
     map_of (zip ''0123456789abcdefABCDEF''
               [0, 1, 2, 3, 4, 5, 6, 7, 8, 9, 10, 11, 12, 13, 14, 15, 10, 11, 12, 13, 14, 15]) c"

definition simple_escape :: "char \<Rightarrow> char option" where
  "simple_escape c =
     map_of [(CHR 0x22, CHR 0x22), (CHR 0x5C, CHR 0x5C), (CHR ''/'', CHR ''/''),
             (CHR ''b'', CHR 0x08), (CHR ''f'', CHR 0x0C), (CHR ''n'', CHR 0x0A),
             (CHR ''r'', CHR 0x0D), (CHR ''t'', CHR 0x09)] c"

definition prepend :: "char \<Rightarrow> (string \<times> string) option \<Rightarrow> (string \<times> string) option" where
  "prepend c r = map_option (\<lambda>(s, rest). (c # s, rest)) r"

text \<open>
  \<open>string_body\<close> reads a string literal after its opening quote and gives the text and the
  input left after the closing quote. A \<^verbatim>\<open>\uXXXX\<close> above 255 is outside the characters of
  this model.
\<close>

fun string_body :: "string \<Rightarrow> (string \<times> string) option" where
  "string_body [] = None"
| "string_body [c] = (if c = CHR 0x22 then Some ([], []) else None)"
| "string_body (c # e # cs) =
     (if c = CHR 0x22 then Some ([], e # cs)
      else if c = CHR 0x5C then
        (if e = CHR ''u'' then
           (case cs of
              h1 # h2 # h3 # h4 # rest \<Rightarrow>
                (case (hexval h1, hexval h2, hexval h3, hexval h4) of
                   (Some d1, Some d2, Some d3, Some d4) \<Rightarrow>
                     (if ((d1 * 16 + d2) * 16 + d3) * 16 + d4 < 256
                      then prepend (char_of (((d1 * 16 + d2) * 16 + d3) * 16 + d4))
                             (string_body rest)
                      else None)
                 | _ \<Rightarrow> None)
            | _ \<Rightarrow> None)
         else (case simple_escape e of
                 Some ch \<Rightarrow> prepend ch (string_body cs)
               | None \<Rightarrow> None))
      else if of_char c < (32::nat) then None
      else prepend c (string_body (e # cs)))"

definition expect :: "string \<Rightarrow> string \<Rightarrow> string option" where
  "expect lit s = (if take (length lit) s = lit then Some (drop (length lit) s) else None)"

definition loads_error :: "string \<Rightarrow> (string \<times> string) option" where
  \<open>loads_error s =
     (case expect ''{"error": {"type": "'' s of
        None \<Rightarrow> None
      | Some s1 \<Rightarrow>
          (case string_body s1 of
             None \<Rightarrow> None
           | Some (kind, s2) \<Rightarrow>
               (case expect '', "message": "'' s2 of
                  None \<Rightarrow> None
                | Some s3 \<Rightarrow>
                    (case string_body s3 of
                       None \<Rightarrow> None
                     | Some (message, s4) \<Rightarrow>
                         if s4 = ''}}'' then Some (kind, message) else None))))\<close>

text \<open>
  The error kind a consumer reads from a chunk, and the kind of a unary result that is an
  error envelope.
\<close>

definition frame_error :: "string \<Rightarrow> (string \<times> string) option" where
  "frame_error chunk =
     (case sse_fields chunk of
        None \<Rightarrow> None
      | Some fs \<Rightarrow>
          (case map_of fs ''data'' of
             None \<Rightarrow> None
           | Some payload \<Rightarrow> loads_error payload))"

definition envelope_kind :: "json \<Rightarrow> json option" where
  "envelope_kind v =
     (case v of
        JDict d \<Rightarrow>
          (case map_of d ''error'' of
             Some (JDict err) \<Rightarrow> map_of err ''type''
           | _ \<Rightarrow> None)
      | _ \<Rightarrow> None)"

section \<open>The normalizer on a store\<close>

text \<open>
  Whether the normalizer changes its argument cannot be read off a function from values to
  values, so here is the same code again over a store: a value is a scalar or a reference,
  the store is the list of the list and dict objects allocated so far (a reference is an
  index), a list or dict display allocates, and \<^verbatim>\<open>append\<close>, \<^verbatim>\<open>d[k] = v\<close> and \<^verbatim>\<open>del d[k]\<close>
  overwrite the object at the address their target evaluates to. \<^verbatim>\<open>message.copy()\<close> is a new
  dict with the same values, references included. Each function returns the store it
  leaves. \<open>py_str\<close> may read the store.
\<close>

datatype val = VNull | VBool bool | VInt int | VFloat rat | VStr string | VRef nat

datatype obj = OList "val list" | ODict "(string \<times> val) list"

type_synonym heap = "obj list"

definition alloc :: "obj \<Rightarrow> heap \<Rightarrow> nat \<times> heap" where
  "alloc ob h = (length h, h @ [ob])"

definition list_at :: "heap \<Rightarrow> val \<Rightarrow> val list option" where
  "list_at h v =
     (case v of
        VRef a \<Rightarrow> (if a < length h then (case h ! a of OList xs \<Rightarrow> Some xs | _ \<Rightarrow> None) else None)
      | _ \<Rightarrow> None)"

definition dict_at :: "heap \<Rightarrow> val \<Rightarrow> (string \<times> val) list option" where
  "dict_at h v =
     (case v of
        VRef a \<Rightarrow> (if a < length h then (case h ! a of ODict d \<Rightarrow> Some d | _ \<Rightarrow> None) else None)
      | _ \<Rightarrow> None)"

definition list_append :: "val \<Rightarrow> val \<Rightarrow> heap \<Rightarrow> heap" where
  "list_append l v h =
     (case l of
        VRef a \<Rightarrow> (case list_at h l of Some xs \<Rightarrow> h[a := OList (xs @ [v])] | None \<Rightarrow> h)
      | _ \<Rightarrow> h)"

definition set_item :: "val \<Rightarrow> string \<Rightarrow> val \<Rightarrow> heap \<Rightarrow> heap" where
  "set_item r k v h =
     (case r of
        VRef a \<Rightarrow> (case dict_at h r of Some d \<Rightarrow> h[a := ODict (AList.update k v d)] | None \<Rightarrow> h)
      | _ \<Rightarrow> h)"

definition del_item :: "val \<Rightarrow> string \<Rightarrow> heap \<Rightarrow> heap" where
  "del_item r k h =
     (case r of
        VRef a \<Rightarrow> (case dict_at h r of Some d \<Rightarrow> h[a := ODict (AList.delete k d)] | None \<Rightarrow> h)
      | _ \<Rightarrow> h)"

definition get_content :: "(string \<times> val) list \<Rightarrow> heap \<Rightarrow> val \<times> heap" where
  "get_content d h =
     (case map_of d ''content'' of
        Some c \<Rightarrow> (c, h)
      | None \<Rightarrow> (case alloc (OList []) h of (a, h') \<Rightarrow> (VRef a, h')))"

fun store_clean_blocks :: "val \<Rightarrow> val list \<Rightarrow> heap \<Rightarrow> heap" where
  "store_clean_blocks cleaned_content [] h = h"
| "store_clean_blocks cleaned_content (content_block # content) h =
     (case dict_at h content_block of
        Some d \<Rightarrow>
          (case alloc (ODict (AList.delete ''cache_control'' d)) h of
             (cleaned_block, h1) \<Rightarrow>
               store_clean_blocks cleaned_content content
                 (list_append cleaned_content (VRef cleaned_block) h1))
      | None \<Rightarrow>
          store_clean_blocks cleaned_content content
            (list_append cleaned_content content_block h))"

definition store_clean_message :: "val \<Rightarrow> heap \<Rightarrow> (exn + val) \<times> heap" where
  "store_clean_message message h =
     (case dict_at h message of
        Some d \<Rightarrow>
          (case alloc (ODict d) h of
             (a, h1) \<Rightarrow>
               (let cleaned_message = VRef a;
                    h2 = (if py_in ''cache_control'' d
                          then del_item cleaned_message ''cache_control'' h1 else h1)
                in case get_content d h2 of
                     (content, h3) \<Rightarrow>
                       (case list_at h3 content of
                          Some blocks \<Rightarrow>
                            (case alloc (OList []) h3 of
                               (c, h4) \<Rightarrow>
                                 (Inr cleaned_message,
                                  set_item cleaned_message ''content'' (VRef c)
                                    (store_clean_blocks (VRef c) blocks h4)))
                        | None \<Rightarrow> (Inr cleaned_message, h3))))
      | None \<Rightarrow>
          (case list_at h message of
             Some xs \<Rightarrow>
               (if VStr ''cache_control'' \<in> set xs
                then Inl (TypeError ''list indices must be integers or slices, not str'')
                else Inl (AttributeError ''list object has no attribute get''),
                snd (alloc (OList xs) h))
           | None \<Rightarrow> (Inl (AttributeError ''object has no attribute copy''), h)))"

fun store_clean_messages :: "val \<Rightarrow> val list \<Rightarrow> heap \<Rightarrow> exn option \<times> heap" where
  "store_clean_messages standardized_messages [] h = (None, h)"
| "store_clean_messages standardized_messages (message # messages) h =
     (case store_clean_message message h of
        (Inl e, h1) \<Rightarrow> (Some e, h1)
      | (Inr cleaned_message, h1) \<Rightarrow>
          store_clean_messages standardized_messages messages
            (list_append standardized_messages cleaned_message h1))"

definition store_truthy :: "heap \<Rightarrow> val \<Rightarrow> bool" where
  "store_truthy h v =
     (case v of
        VNull \<Rightarrow> False
      | VBool b \<Rightarrow> b
      | VInt n \<Rightarrow> n \<noteq> 0
      | VFloat q \<Rightarrow> q \<noteq> 0
      | VStr s \<Rightarrow> s \<noteq> []
      | VRef a \<Rightarrow> list_at h v \<noteq> Some [] \<and> dict_at h v \<noteq> Some [])"

definition store_text_block :: "string \<Rightarrow> obj \<Rightarrow> heap \<Rightarrow> val \<times> heap" where
  "store_text_block t directive h =
     (case alloc directive h of
        (d, h1) \<Rightarrow>
          (case alloc (ODict [(''type'', VStr ''text''), (''text'', VStr t),
                              (''cache_control'', VRef d)]) h1 of
             (b, h2) \<Rightarrow> (VRef b, h2)))"

definition store_new_content :: "string \<Rightarrow> obj \<Rightarrow> heap \<Rightarrow> val \<times> heap" where
  "store_new_content t directive h =
     (case store_text_block t directive h of
        (b, h1) \<Rightarrow> (case alloc (OList [b]) h1 of (l, h2) \<Rightarrow> (VRef l, h2)))"

definition store_mark_last :: "(heap \<Rightarrow> val \<Rightarrow> string) \<Rightarrow> obj \<Rightarrow> val \<Rightarrow> heap \<Rightarrow> heap" where
  "store_mark_last py_str directive last_message h =
     (case dict_at h last_message of
        None \<Rightarrow> h
      | Some d \<Rightarrow>
          (case get_content d h of
             (content, h0) \<Rightarrow>
               (case list_at h0 content of
                  Some blocks \<Rightarrow>
                    (if blocks \<noteq> [] then
                       (case dict_at h0 (last blocks) of
                          Some b \<Rightarrow>
                            (case alloc directive h0 of
                               (dr, h1) \<Rightarrow> set_item (last blocks) ''cache_control'' (VRef dr) h1)
                        | None \<Rightarrow>
                            (case store_text_block
                                    (if store_truthy h0 (last blocks) then py_str h0 (last blocks)
                                     else []) directive h0 of
                               (b, h1) \<Rightarrow> list_append content b h1))
                     else snd (store_new_content [] directive h0))
                | None \<Rightarrow>
                    (case content of
                       VStr s \<Rightarrow>
                         (case store_new_content s directive h0 of
                            (l, h1) \<Rightarrow> set_item last_message ''content'' l h1)
                     | _ \<Rightarrow>
                         (case store_new_content [] directive h0 of
                            (l, h1) \<Rightarrow> set_item last_message ''content'' l h1)))))"

definition store_place_cache_control ::
  "(heap \<Rightarrow> val \<Rightarrow> string) \<Rightarrow> obj \<Rightarrow> val \<Rightarrow> heap \<Rightarrow> (exn + val) \<times> heap" where
  "store_place_cache_control py_str directive messages h =
     (case list_at h messages of
        None \<Rightarrow> (Inl (TypeError ''messages is not a list''), h)
      | Some ms \<Rightarrow>
          if ms = [] then (Inr messages, h)
          else
            (case alloc (OList []) h of
               (a, h1) \<Rightarrow>
                 (let standardized_messages = VRef a
                  in case store_clean_messages standardized_messages ms h1 of
                       (Some e, h2) \<Rightarrow> (Inl e, h2)
                     | (None, h2) \<Rightarrow>
                         (case list_at h2 standardized_messages of
                            Some sm \<Rightarrow>
                              if sm \<noteq> [] then
                                (Inr standardized_messages,
                                 store_mark_last py_str directive (last sm) h2)
                              else (Inr standardized_messages, h2)
                          | None \<Rightarrow> (Inr standardized_messages, h2)))))"

definition store_standardize_cache_control ::
  "(heap \<Rightarrow> val \<Rightarrow> string) \<Rightarrow> 'a anthropic_handler_scheme \<Rightarrow> val \<Rightarrow> heap \<Rightarrow> (exn + val) \<times> heap" where
  "store_standardize_cache_control py_str self messages h =
     store_place_cache_control py_str
       (ODict [(''type'', VStr ''ephemeral''), (''ttl'', VStr (cache_control_ttl self))])
       messages h"

definition store_add_cache_control_to_messages ::
  "(heap \<Rightarrow> val \<Rightarrow> string) \<Rightarrow> val \<Rightarrow> heap \<Rightarrow> (exn + val) \<times> heap" where
  "store_add_cache_control_to_messages py_str messages h =
     store_place_cache_control py_str (ODict [(''type'', VStr ''ephemeral'')]) messages h"


text \<open>
  A stored value read back as a JSON value, to a given depth (to compare the two
  embeddings on an input).
\<close>

fun read_back :: "nat \<Rightarrow> heap \<Rightarrow> val \<Rightarrow> json" where
  "read_back n h VNull = JNull"
| "read_back n h (VBool b) = JBool b"
| "read_back n h (VInt i) = JInt i"
| "read_back n h (VFloat q) = JFloat q"
| "read_back n h (VStr s) = JStr s"
| "read_back 0 h (VRef a) = JNull"
| "read_back (Suc n) h (VRef a) =
     (if a < length h then
        (case h ! a of
           OList xs \<Rightarrow> JList (map (read_back n h) xs)
         | ODict d \<Rightarrow> JDict (map (\<lambda>(k, v). (k, read_back n h v)) d))
      else JNull)"

text \<open>
  \<open>frame h0 h\<close>: the store \<open>h\<close> is \<open>h0\<close> with new objects after it; every object of \<open>h0\<close> is
  in \<open>h\<close> at its address, unchanged. The three predicates after it are the invariants of
  the proof: a list allocated by the call holds no reference to a dict of \<open>h0\<close>, and a
  cleaned message is a dict allocated by the call whose content is no list of \<open>h0\<close>.
\<close>

definition frame :: "heap \<Rightarrow> heap \<Rightarrow> bool" where
  "frame h0 h = (length h0 \<le> length h \<and> take (length h0) h = h0)"

definition new_lists_hold_no_old_dict :: "heap \<Rightarrow> heap \<Rightarrow> bool" where
  "new_lists_hold_no_old_dict h0 h =
     (\<forall>a xs. length h0 \<le> a \<and> a < length h \<and> h ! a = OList xs \<longrightarrow>
        (\<forall>x \<in> set xs. dict_at h0 x = None))"

definition store_inv :: "heap \<Rightarrow> heap \<Rightarrow> bool" where
  "store_inv h0 h = (frame h0 h \<and> new_lists_hold_no_old_dict h0 h)"

definition cleaned_at :: "heap \<Rightarrow> heap \<Rightarrow> val \<Rightarrow> bool" where
  "cleaned_at h0 h v =
     (\<exists>a d. v = VRef a \<and> length h0 \<le> a \<and> a < length h \<and> h ! a = ODict d \<and>
        (\<forall>c. map_of d ''content'' = Some c \<longrightarrow> list_at h0 c = None))"

section \<open>Properties of the normalizer\<close>

subsection \<open>Dict operations\<close>

lemma block_has_directive_clean [simp]: "\<not> block_has_directive (clean_block b)"
  by (cases b) (simp_all add: block_has_directive_def py_in_def AList.delete_conv')

lemma filter_clean_blocks [simp]: "filter block_has_directive (map clean_block bs) = []"
  by (induction bs) simp_all

lemma py_get_update_same [simp]: "py_get (AList.update k v m) k d = v"
  by (simp add: py_get_def AList.update_conv')

lemma py_get_update_other [simp]: "k' \<noteq> k \<Longrightarrow> py_get (AList.update k v m) k' d = py_get m k' d"
  by (simp add: py_get_def AList.update_conv')

lemma py_get_delete_other [simp]: "k' \<noteq> k \<Longrightarrow> py_get (AList.delete k m) k' d = py_get m k' d"
  by (simp add: py_get_def)

lemma py_in_update [simp]: "py_in k' (AList.update k v m) = (k' = k \<or> py_in k' m)"
  by (simp add: py_in_def AList.update_conv')

lemma py_in_delete [simp]: "py_in k' (AList.delete k m) = (k' \<noteq> k \<and> py_in k' m)"
  by (auto simp add: py_in_def AList.delete_conv')





lemma mark_list_dict:
  "py_get c ''content'' (JList []) = JList bs \<Longrightarrow> bs \<noteq> [] \<Longrightarrow> last bs = JDict b \<Longrightarrow>
   mark_last_message py_str d c =
     AList.update ''content''
       (JList (butlast bs @ [JDict (AList.update ''cache_control'' d b)])) c"
  by (simp add: mark_last_message_def)

lemma mark_list_other:
  "py_get c ''content'' (JList []) = JList bs \<Longrightarrow> bs \<noteq> [] \<Longrightarrow> \<not> is_dict (last bs) \<Longrightarrow>
   mark_last_message py_str d c =
     AList.update ''content''
       (JList (bs @ [text_block (if truthy (last bs) then py_str (last bs) else []) d])) c"
  by (cases "last bs") (simp_all add: mark_last_message_def is_dict_def)

lemma mark_list_empty:
  "py_get c ''content'' (JList []) = JList [] \<Longrightarrow> mark_last_message py_str d c = c"
  by (simp add: mark_last_message_def)

lemma mark_str:
  "py_get c ''content'' (JList []) = JStr s \<Longrightarrow>
   mark_last_message py_str d c = AList.update ''content'' (JList [text_block s d]) c"
  by (simp add: mark_last_message_def)

lemma mark_other:
  "\<forall>bs. py_get c ''content'' (JList []) \<noteq> JList bs \<Longrightarrow>
   \<forall>s. py_get c ''content'' (JList []) \<noteq> JStr s \<Longrightarrow>
   mark_last_message py_str d c = AList.update ''content'' (JList [text_block [] d]) c"
  by (cases "py_get c ''content'' (JList [])") (simp_all add: mark_last_message_def)

lemma block_has_text_block [simp]: "block_has_directive (text_block t d)"
  by (simp add: text_block_def block_has_directive_def py_in_def)





lemma map_of_update_content [simp]:
  "map_of (AList.update ''content'' v c) ''content'' = Some v"
  by (simp add: AList.update_conv')





lemma has_cache_control_count:
  "has_cache_control ds \<longleftrightarrow> 0 < count_cache_control (map JDict ds)"
proof (induction ds)
  case Nil
  then show ?case by (simp add: has_cache_control_def count_cache_control_def)
next
  case (Cons m ds)
  have "list_ex block_has_directive bs \<longleftrightarrow> 0 < length (filter block_has_directive bs)" for bs
    by (induction bs) simp_all
  then have "(py_in ''cache_control'' m \<or> list_ex block_has_directive (content_blocks m)) \<longleftrightarrow>
      0 < count_message (JDict m)"
    by (simp add: count_message_def)
  with Cons show ?case
    by (simp add: has_cache_control_def count_cache_control_def)
qed

subsection \<open>At most one directive, at the tail\<close>



subsection \<open>Idempotence\<close>

lemma clean_message_strip: "clean_message (JDict m) = Inr (strip_message m)"
proof -
  have "(if py_in ''cache_control'' m then AList.delete ''cache_control'' m else m) =
          AList.delete ''cache_control'' m"
    by (simp add: py_in_def map_of_eq_None_iff)
  then show ?thesis
    by (cases "py_get m ''content'' (JList [])") (simp_all add: strip_message_def)
qed

lemma clean_messages_map: "clean_messages (map JDict ds) = Inr (map strip_message ds)"
  by (induction ds) (simp_all add: clean_message_strip del: clean_message.simps)

lemma clean_block_idem [simp]: "clean_block (clean_block b) = clean_block b"
  by (cases b) (simp_all add: AList.delete_idem)

lemma clean_block_comp [simp]: "clean_block \<circ> clean_block = clean_block"
  by (rule ext) simp

lemma delete_strip [simp]:
  "AList.delete ''cache_control'' (strip_message m) = strip_message m"
  by (cases "py_get m ''content'' (JList [])")
     (simp_all add: strip_message_def AList.delete_update AList.delete_idem)

lemma strip_update_content:
  "AList.delete ''cache_control'' s = s \<Longrightarrow>
   strip_message (AList.update ''content'' (JList xs) s) =
     AList.update ''content'' (JList (map clean_block xs)) s"
  by (simp add: strip_message_def AList.delete_update)

lemma strip_content_clean:
  assumes "py_get (strip_message m) ''content'' (JList []) = JList bs"
  shows "map clean_block bs = bs"
proof (cases "py_get m ''content'' (JList [])")
  case (JList bs0)
  then have "strip_message m = AList.update ''content'' (JList (map clean_block bs0))
            (AList.delete ''cache_control'' m)"
    by (simp add: strip_message_def)
  with assms have "bs = map clean_block bs0" by simp
  then show ?thesis by simp
qed (use assms in \<open>simp_all add: strip_message_def\<close>)

lemma strip_idem [simp]: "strip_message (strip_message m) = strip_message m"
proof (cases "py_get m ''content'' (JList [])")
  case (JList bs0)
  then have s: "strip_message m = AList.update ''content'' (JList (map clean_block bs0))
            (AList.delete ''cache_control'' m)"
    by (simp add: strip_message_def)
  show ?thesis
    unfolding s by (simp add: strip_update_content AList.delete_idem)
qed (simp_all add: strip_message_def AList.delete_idem)


lemma mark_strip_fixed:
  "mark_last_message py_str d (strip_message (mark_last_message py_str d (strip_message m))) =
     mark_last_message py_str d (strip_message m)"
proof -
  let ?s = "strip_message m"
  have ds: "AList.delete ''cache_control'' ?s = ?s" by simp
  note su = strip_update_content[OF ds]
  consider (lst) bs where "py_get ?s ''content'' (JList []) = JList bs"
    | (str) t where "py_get ?s ''content'' (JList []) = JStr t"
    | (other) "\<forall>bs. py_get ?s ''content'' (JList []) \<noteq> JList bs"
        "\<forall>t. py_get ?s ''content'' (JList []) \<noteq> JStr t"
    by blast
  then show ?thesis
  proof cases
    case lst
    note clean = strip_content_clean[OF lst]
    show ?thesis
    proof (cases "bs = []")
      case True
      then show ?thesis using lst by (simp add: mark_list_empty)
    next
      case False
      then have bl: "bs = butlast bs @ [last bs]" by simp
      from clean have cl_butlast: "map clean_block (butlast bs) = butlast bs"
        by (metis map_butlast)
      from clean False have cl_last: "clean_block (last bs) = last bs"
        by (metis last_map)
      show ?thesis
      proof (cases "is_dict (last bs)")
        case True
        then obtain b where b: "last bs = JDict b" by (cases "last bs") (simp_all add: is_dict_def)
        with cl_last have db: "AList.delete ''cache_control'' b = b" by simp
        have m1: "mark_last_message py_str d ?s =
            AList.update ''content''
              (JList (butlast bs @ [JDict (AList.update ''cache_control'' d b)])) ?s"
          using lst False b by (rule mark_list_dict)
        have s2: "strip_message (mark_last_message py_str d ?s) =
            AList.update ''content'' (JList (butlast bs @ [JDict b])) ?s"
          unfolding m1 su by (simp add: cl_butlast AList.delete_update_same db)
        have step: "mark_last_message py_str d (AList.update ''content'' (JList (butlast bs @ [JDict b])) ?s) =
            AList.update ''content''
              (JList (butlast (butlast bs @ [JDict b]) @ [JDict (AList.update ''cache_control'' d b)]))
              (AList.update ''content'' (JList (butlast bs @ [JDict b])) ?s)"
          by (rule mark_list_dict) simp_all
        have "mark_last_message py_str d (strip_message (mark_last_message py_str d ?s)) =
            mark_last_message py_str d ?s"
          by (simp only: s2 step) (simp add: m1)
        then show ?thesis .
      next
        case nd: False
        let ?t = "if truthy (last bs) then py_str (last bs) else []"
        have m1: "mark_last_message py_str d ?s =
            AList.update ''content'' (JList (bs @ [text_block ?t d])) ?s"
          using lst False nd by (rule mark_list_other)
        have s2: "strip_message (mark_last_message py_str d ?s) =
            AList.update ''content''
              (JList (bs @ [JDict [(''type'', JStr ''text''), (''text'', JStr ?t)]])) ?s"
          unfolding m1 su by (simp add: clean text_block_def)
        have step: "mark_last_message py_str d
                (AList.update ''content''
                  (JList (bs @ [JDict [(''type'', JStr ''text''), (''text'', JStr ?t)]])) ?s) =
            AList.update ''content''
              (JList (butlast (bs @ [JDict [(''type'', JStr ''text''), (''text'', JStr ?t)]]) @
                 [JDict (AList.update ''cache_control'' d
                    [(''type'', JStr ''text''), (''text'', JStr ?t)])]))
              (AList.update ''content''
                  (JList (bs @ [JDict [(''type'', JStr ''text''), (''text'', JStr ?t)]])) ?s)"
          by (rule mark_list_dict) simp_all
        have "mark_last_message py_str d (strip_message (mark_last_message py_str d ?s)) =
            mark_last_message py_str d ?s"
          by (simp only: s2 step) (simp add: m1 text_block_def)
        then show ?thesis .
      qed
    qed
  next
    case str
    have m1: "mark_last_message py_str d ?s =
        AList.update ''content'' (JList [text_block t d]) ?s"
      using str by (rule mark_str)
    have s2: "strip_message (mark_last_message py_str d ?s) =
        AList.update ''content'' (JList [JDict [(''type'', JStr ''text''), (''text'', JStr t)]]) ?s"
      unfolding m1 su by (simp add: text_block_def)
    have step: "mark_last_message py_str d
            (AList.update ''content'' (JList [JDict [(''type'', JStr ''text''), (''text'', JStr t)]]) ?s) =
        AList.update ''content''
          (JList (butlast [JDict [(''type'', JStr ''text''), (''text'', JStr t)]] @
             [JDict (AList.update ''cache_control'' d [(''type'', JStr ''text''), (''text'', JStr t)])]))
          (AList.update ''content'' (JList [JDict [(''type'', JStr ''text''), (''text'', JStr t)]]) ?s)"
      by (rule mark_list_dict) simp_all
    have "mark_last_message py_str d (strip_message (mark_last_message py_str d ?s)) =
        mark_last_message py_str d ?s"
      by (simp only: s2 step) (simp add: m1 text_block_def)
    then show ?thesis .
  next
    case other
    have m1: "mark_last_message py_str d ?s =
        AList.update ''content'' (JList [text_block [] d]) ?s"
      using other by (rule mark_other)
    have s2: "strip_message (mark_last_message py_str d ?s) =
        AList.update ''content'' (JList [JDict [(''type'', JStr ''text''), (''text'', JStr [])]]) ?s"
      unfolding m1 su by (simp add: text_block_def)
    have step: "mark_last_message py_str d
            (AList.update ''content'' (JList [JDict [(''type'', JStr ''text''), (''text'', JStr [])]]) ?s) =
        AList.update ''content''
          (JList (butlast [JDict [(''type'', JStr ''text''), (''text'', JStr [])]] @
             [JDict (AList.update ''cache_control'' d [(''type'', JStr ''text''), (''text'', JStr [])])]))
          (AList.update ''content'' (JList [JDict [(''type'', JStr ''text''), (''text'', JStr [])]]) ?s)"
      by (rule mark_list_dict) simp_all
    have "mark_last_message py_str d (strip_message (mark_last_message py_str d ?s)) =
        mark_last_message py_str d ?s"
      by (simp only: s2 step) (simp add: m1 text_block_def)
    then show ?thesis .
  qed
qed

lemma place_cache_control_dicts:
  "place_cache_control py_str d (map JDict ds) =
     Inr (map JDict (if ds = [] then []
                     else map strip_message (butlast ds) @
                            [mark_last_message py_str d (strip_message (last ds))]))"
  by (cases "ds = []")
     (simp_all add: place_cache_control_def clean_messages_map map_butlast last_map)

lemma place_cache_control_idem:
  assumes "list_all is_dict messages"
  shows "\<exists>out. place_cache_control py_str d messages = Inr out \<and>
               place_cache_control py_str d out = Inr out"
proof -
  from assms have "\<exists>ds. messages = map JDict ds"
  proof (induction messages)
    case Nil
    then show ?case by simp
  next
    case (Cons m ms)
    from Cons.prems obtain x where x: "m = JDict x"
      by (cases m) (simp_all add: is_dict_def)
    from Cons obtain xs where "ms = map JDict xs" by auto
    with x have "m # ms = map JDict (x # xs)" by simp
    then show ?case by (rule exI[of _ "x # xs"])
  qed
  then obtain ds where ds: "messages = map JDict ds" by blast
  let ?n = "if ds = [] then []
            else map strip_message (butlast ds) @
                   [mark_last_message py_str d (strip_message (last ds))]"
  have 1: "place_cache_control py_str d messages = Inr (map JDict ?n)"
    unfolding ds by (rule place_cache_control_dicts)
  have 2: "place_cache_control py_str d (map JDict ?n) = Inr (map JDict ?n)"
    unfolding place_cache_control_dicts
    by (cases "ds = []") (simp_all add: mark_strip_fixed)
  show ?thesis using 1 2 by simp
qed

text \<open>
  Claim C8. Normalizing the output of a normalization gives that output again, for both
  normalizers and every list of dict messages (on which both calls return). The equality
  is of values with their key order, which is more than Python's \<^verbatim>\<open>==\<close> of dicts asks.
\<close>

theorem normalization_idempotent:
  assumes "list_all is_dict messages"
  shows "(\<exists>out. standardize_cache_control py_str self messages = Inr out \<and>
            standardize_cache_control py_str self out = Inr out) \<and>
         (\<exists>out. add_cache_control_to_messages py_str messages = Inr out \<and>
            add_cache_control_to_messages py_str out = Inr out)"
  unfolding standardize_cache_control_def add_cache_control_to_messages_def
  using place_cache_control_idem[OF assms] by blast

theorem normalization_idempotent_witness:
  "list_all is_dict
     [JDict [(''role'', JStr ''user''),
             (''content'', JList [JDict [(''type'', JStr ''text''), (''text'', JStr ''a'')],
                                  JStr ''b''])]] \<and>
   add_cache_control_to_messages (\<lambda>v. ''b'')
     [JDict [(''role'', JStr ''user''),
             (''content'', JList [JDict [(''type'', JStr ''text''), (''text'', JStr ''a'')],
                                  JStr ''b''])]] =
     Inr [JDict [(''role'', JStr ''user''),
                 (''content'', JList [JDict [(''type'', JStr ''text''), (''text'', JStr ''a'')],
                                      JStr ''b'',
                                      text_block ''b'' bare_directive])]] \<and>
   add_cache_control_to_messages (\<lambda>v. ''b'')
     [JDict [(''role'', JStr ''user''),
             (''content'', JList [JDict [(''type'', JStr ''text''), (''text'', JStr ''a'')],
                                  JStr ''b'',
                                  text_block ''b'' bare_directive])]] =
     Inr [JDict [(''role'', JStr ''user''),
                 (''content'', JList [JDict [(''type'', JStr ''text''), (''text'', JStr ''a'')],
                                      JStr ''b'',
                                      text_block ''b'' bare_directive])]]"
proof -
  let ?ms = "[JDict [(''role'', JStr ''user''),
             (''content'', JList [JDict [(''type'', JStr ''text''), (''text'', JStr ''a'')],
                                  JStr ''b''])]]"
  have h: "list_all is_dict ?ms" by (simp add: is_dict_def)
  have e: "add_cache_control_to_messages (\<lambda>v. ''b'') ?ms =
     Inr [JDict [(''role'', JStr ''user''),
                 (''content'', JList [JDict [(''type'', JStr ''text''), (''text'', JStr ''a'')],
                                      JStr ''b'',
                                      text_block ''b'' bare_directive])]]"
    by (simp add: add_cache_control_to_messages_def place_cache_control_def
          mark_last_message_def py_get_def py_in_def)
  from normalization_idempotent[OF h, of "\<lambda>v. ''b''"]
  obtain out where "add_cache_control_to_messages (\<lambda>v. ''b'') ?ms = Inr out"
      "add_cache_control_to_messages (\<lambda>v. ''b'') out = Inr out"
    by blast
  with e h show ?thesis by simp
qed

subsection \<open>The last message with an empty content list\<close>

text \<open>
  Claim C7 says that a last message whose content is the empty list gets a single
  synthesized text block with the directive. The source builds that block but assigns it to
  the local variable \<^verbatim>\<open>content\<close> only (\<^verbatim>\<open>content = [{...}]\<close>), where the branches beside it assign
  to \<^verbatim>\<open>last_message['content']\<close>: the returned message keeps its empty list and the output
  holds no directive at all.
\<close>

theorem empty_content_left_empty:
  "standardize_cache_control py_str self
     [JDict [(''role'', JStr ''user''), (''content'', JList [])]] =
     Inr [JDict [(''role'', JStr ''user''), (''content'', JList [])]] \<and>
   add_cache_control_to_messages py_str
     [JDict [(''role'', JStr ''user''), (''content'', JList [])]] =
     Inr [JDict [(''role'', JStr ''user''), (''content'', JList [])]] \<and>
   count_cache_control [JDict [(''role'', JStr ''user''), (''content'', JList [])]] = 0"
  by (simp add: standardize_cache_control_def add_cache_control_to_messages_def
        place_cache_control_def mark_last_message_def py_get_def py_in_def
        count_cache_control_def count_message_def content_blocks_def)

section \<open>Properties of header preparation\<close>

lemma same_but_credentials_map_of:
  assumes "same_but_credentials h1 h2" and "\<not> is_credential_header name"
  shows "map_of h1 name = map_of h2 name"
proof (cases "name \<in> set (map fst h1 @ map fst h2)")
  case True
  then show ?thesis using assms by (auto simp add: same_but_credentials_def list_all_iff)
next
  case False
  then have "map_of h1 name = None" "map_of h2 name = None"
    by (simp_all add: map_of_eq_None_iff)
  then show ?thesis by simp
qed

lemma not_credential [simp]:
  "\<not> is_credential_header ''anthropic-version''"
  "\<not> is_credential_header ''anthropic-beta''"
  "\<not> is_credential_header ''user-agent''"
  "\<not> is_credential_header ''content-type''"
  "\<not> is_credential_header ''Content-Type''"
  "\<not> is_credential_header ''HTTP-Referer''"
  "\<not> is_credential_header ''X-Title''"
  by (simp_all add: is_credential_header_def lower_char_def)

lemma credential_neq: "is_credential_header n \<Longrightarrow> \<not> is_credential_header m \<Longrightarrow> n \<noteq> m"
  by auto

lemma anthropic_headers_keys:
  "name \<noteq> ''x-api-key'' \<Longrightarrow> name \<noteq> ''anthropic-version'' \<Longrightarrow>
   name \<noteq> ''content-type'' \<Longrightarrow> name \<noteq> ''anthropic-beta'' \<Longrightarrow> name \<noteq> ''user-agent'' \<Longrightarrow>
   map_of (anthropic_prepare_headers self h) name = None"
  by (simp add: anthropic_prepare_headers_def Let_def AList.update_conv' split: option.splits)

text \<open>
  Claim C3. Two caller header dicts that differ only in credential headers (\<^verbatim>\<open>x-api-key\<close>,
  \<^verbatim>\<open>Authorization\<close>, in any letter case) give the same prepared headers, for both handlers;
  and among the credential headers the prepared headers hold exactly the handler's own:
  \<^verbatim>\<open>x-api-key\<close> with the key given at construction (Anthropic), \<^verbatim>\<open>Authorization\<close> with
  \<^verbatim>\<open>Bearer\<close> and that key (OpenRouter), whatever the caller sent.
\<close>

theorem prepare_headers_credentials:
  assumes "same_but_credentials original_headers original_headers'"
  shows "anthropic_prepare_headers self original_headers =
           anthropic_prepare_headers self original_headers' \<and>
         openai_prepare_headers oself original_headers =
           openai_prepare_headers oself original_headers' \<and>
         (\<forall>name. is_credential_header name \<longrightarrow>
            map_of (anthropic_prepare_headers self original_headers) name =
              (if name = ''x-api-key'' then Some (api_key self) else None)) \<and>
         (\<forall>name. is_credential_header name \<longrightarrow>
            map_of (openai_prepare_headers oself original_headers) name =
              (if name = ''Authorization'' then Some (''Bearer '' @ api_key oself) else None))"
proof -
  have a: "anthropic_prepare_headers self original_headers =
           anthropic_prepare_headers self original_headers'"
    using same_but_credentials_map_of[OF assms]
    by (simp add: anthropic_prepare_headers_def)
  have b: "openai_prepare_headers oself original_headers =
           openai_prepare_headers oself original_headers'"
    by (simp add: openai_prepare_headers_def)
  have c: "map_of (anthropic_prepare_headers self original_headers) name =
              (if name = ''x-api-key'' then Some (api_key self) else None)"
    if "is_credential_header name" for name
  proof (cases "name = ''x-api-key''")
    case True
    then show ?thesis
      by (simp add: anthropic_prepare_headers_def Let_def AList.update_conv' split: option.splits)
  next
    case False
    have "name \<noteq> ''anthropic-version''" "name \<noteq> ''content-type''"
         "name \<noteq> ''anthropic-beta''" "name \<noteq> ''user-agent''"
      by (rule credential_neq[OF that], simp)+
    with False have "map_of (anthropic_prepare_headers self original_headers) name = None"
      by (intro anthropic_headers_keys)
    then show ?thesis using False by simp
  qed
  have d: "map_of (openai_prepare_headers oself original_headers) name =
              (if name = ''Authorization'' then Some (''Bearer '' @ api_key oself) else None)"
    if "is_credential_header name" for name
  proof -
    have "name \<noteq> ''Content-Type''" "name \<noteq> ''HTTP-Referer''" "name \<noteq> ''X-Title''"
      by (rule credential_neq[OF that], simp)+
    then show ?thesis
      by (simp add: openai_prepare_headers_def AList.update_conv')
  qed
  show ?thesis using a b c d by blast
qed

theorem prepare_headers_credentials_witness:
  "same_but_credentials
     [(''x-api-key'', ''caller-key''), (''user-agent'', ''curl'')]
     [(''authorization'', ''Bearer other''), (''user-agent'', ''curl'')] \<and>
   anthropic_prepare_headers (AnthropicRequestHandler ''https://api.anthropic.com'' ''server-key'' ''1h'')
     [(''x-api-key'', ''caller-key''), (''user-agent'', ''curl'')] =
   anthropic_prepare_headers (AnthropicRequestHandler ''https://api.anthropic.com'' ''server-key'' ''1h'')
     [(''authorization'', ''Bearer other''), (''user-agent'', ''curl'')] \<and>
   anthropic_prepare_headers (AnthropicRequestHandler ''https://api.anthropic.com'' ''server-key'' ''1h'')
     [(''x-api-key'', ''caller-key''), (''user-agent'', ''curl'')] =
   [(''x-api-key'', ''server-key''), (''anthropic-version'', ''2023-06-01''),
    (''content-type'', ''application/json''), (''user-agent'', ''curl'')]"
proof -
  have h: "same_but_credentials
     [(''x-api-key'', ''caller-key''), (''user-agent'', ''curl'')]
     [(''authorization'', ''Bearer other''), (''user-agent'', ''curl'')]"
    by (simp add: same_but_credentials_def is_credential_header_def lower_char_def)
  show ?thesis
    using h prepare_headers_credentials[OF h,
        of "AnthropicRequestHandler ''https://api.anthropic.com'' ''server-key'' ''1h''"
           "OpenAIRequestHandler ''https://openrouter.ai/api'' ''server-key''"]
    by (simp add: anthropic_prepare_headers_def AnthropicRequestHandler_def Let_def)
qed

section \<open>Properties of validation, the route and the unary forwarders\<close>

subsection \<open>Validation\<close>

lemma validate_openai_eq: "validate_openai_request r = validate_anthropic_request r"
  by (simp add: validate_openai_request_def validate_anthropic_request_def)

lemma validate_messages_iff:
  "validate_messages ms \<longleftrightarrow>
     (\<forall>m \<in> set ms. \<exists>d. m = JDict d \<and> py_in ''role'' d \<and> py_in ''content'' d)"
  by (induction ms rule: validate_messages.induct) auto

lemma validate_iff:
  "validate_anthropic_request r \<longleftrightarrow>
     py_in ''model'' r \<and>
     (\<exists>ms. map_of r ''messages'' = Some (JList ms) \<and> ms \<noteq> [] \<and>
        (\<forall>m \<in> set ms. \<exists>d. m = JDict d \<and> py_in ''role'' d \<and> py_in ''content'' d))"
proof (cases "map_of r ''messages''")
  case None
  then show ?thesis by (simp add: validate_anthropic_request_def py_in_def)
next
  case (Some v)
  then show ?thesis
    by (cases v) (simp_all add: validate_anthropic_request_def py_in_def py_get_def
        validate_messages_iff)
qed

text \<open>
  Claim C6. A request that fails validation makes both operations, of both handlers, fail
  with the \<^verbatim>\<open>ValueError\<close> "Invalid ... request format" (the error the route answers with
  status 400; it is how the code signals the kind \<^verbatim>\<open>invalid_request\<close>), with no request sent
  to the upstream and, for the streaming operation, no chunk produced. The second part says
  which requests fail: validation passes exactly when \<^verbatim>\<open>model\<close> is present and \<^verbatim>\<open>messages\<close>
  is a non-empty list of dicts that each have \<^verbatim>\<open>role\<close> and \<^verbatim>\<open>content\<close>.
\<close>

theorem invalid_request_rejected:
  "(\<not> validate_anthropic_request request_data \<longrightarrow>
      anthropic_handle_request py_str self upstream request_data headers =
        (Raise (ValueError ''Invalid Anthropic request format''), []) \<and>
      anthropic_handle_stream_request py_str self upstream request_data headers =
        (([], Some (ValueError ''Invalid Anthropic request format'')), []) \<and>
      openai_handle_request py_str oself upstream request_data headers =
        (Raise (ValueError ''Invalid OpenAI request format''), []) \<and>
      openai_handle_stream_request py_str oself upstream request_data headers =
        (([], Some (ValueError ''Invalid OpenAI request format'')), [])) \<and>
   (validate_anthropic_request request_data \<longleftrightarrow>
      py_in ''model'' request_data \<and>
      (\<exists>ms. map_of request_data ''messages'' = Some (JList ms) \<and> ms \<noteq> [] \<and>
         (\<forall>m \<in> set ms. \<exists>d. m = JDict d \<and> py_in ''role'' d \<and> py_in ''content'' d)))"
proof -
  have "\<not> validate_anthropic_request request_data \<longrightarrow>
      anthropic_handle_request py_str self upstream request_data headers =
        (Raise (ValueError ''Invalid Anthropic request format''), []) \<and>
      anthropic_handle_stream_request py_str self upstream request_data headers =
        (([], Some (ValueError ''Invalid Anthropic request format'')), []) \<and>
      openai_handle_request py_str oself upstream request_data headers =
        (Raise (ValueError ''Invalid OpenAI request format''), []) \<and>
      openai_handle_stream_request py_str oself upstream request_data headers =
        (([], Some (ValueError ''Invalid OpenAI request format'')), [])"
    by (simp add: anthropic_handle_request_def anthropic_handle_stream_request_def
        openai_handle_request_def openai_handle_stream_request_def validate_openai_eq)
  then show ?thesis using validate_iff[of request_data] by blast
qed

theorem invalid_request_rejected_witness:
  "\<not> validate_anthropic_request [(''messages'', JList [JDict [(''role'', JStr ''user'')]])] \<and>
   anthropic_handle_request (\<lambda>v. [])
     (AnthropicRequestHandler ''https://api.anthropic.com'' ''key'' ''1h'')
     (\<lambda>request. PostRaises (TimeoutError []))
     [(''messages'', JList [JDict [(''role'', JStr ''user'')]])] [] =
     (Raise (ValueError ''Invalid Anthropic request format''), []) \<and>
   anthropic_handle_stream_request (\<lambda>v. [])
     (AnthropicRequestHandler ''https://api.anthropic.com'' ''key'' ''1h'')
     (\<lambda>request. PostRaises (TimeoutError []))
     [(''messages'', JList [JDict [(''role'', JStr ''user'')]])] [] =
     (([], Some (ValueError ''Invalid Anthropic request format'')), [])"
proof -
  have h: "\<not> validate_anthropic_request [(''messages'', JList [JDict [(''role'', JStr ''user'')]])]"
    by (simp add: validate_anthropic_request_def py_in_def)
  note r = invalid_request_rejected[
      where request_data = "[(''messages'', JList [JDict [(''role'', JStr ''user'')]])]"
        and py_str = "\<lambda>v. []"
        and self = "AnthropicRequestHandler ''https://api.anthropic.com'' ''key'' ''1h''"
        and oself = "OpenAIRequestHandler ''https://openrouter.ai/api/v1'' ''key''"
        and upstream = "\<lambda>request. PostRaises (TimeoutError [])" and headers = "[]",
      THEN conjunct1, THEN mp, OF h]
  show ?thesis using h r by simp
qed

subsection \<open>The route\<close>

lemma sent_anthropic_handle_request:
  "req \<in> set (snd (anthropic_handle_request py_str self upstream d headers)) \<Longrightarrow>
   \<exists>ms. req_json req = AList.update ''messages'' ms d"
  by (auto simp add: anthropic_handle_request_def normalized_request_def forward_to_anthropic_def
        Let_def split: if_splits sum.splits json.splits)

lemma sent_anthropic_handle_stream_request:
  "req \<in> set (snd (anthropic_handle_stream_request py_str self upstream d headers)) \<Longrightarrow>
   \<exists>ms. req_json req = AList.update ''messages'' ms d"
  by (auto simp add: anthropic_handle_stream_request_def normalized_request_def
        forward_stream_to_anthropic_def Let_def split: if_splits sum.splits json.splits)

lemma snd_messages_endpoint:
  "py_in ''top_p'' d \<Longrightarrow>
   snd (messages_endpoint py_str h upstream headers (JDict d)) =
     (if truthy (py_get d ''stream'' (JBool False))
      then snd (anthropic_handle_stream_request py_str h upstream (AList.delete ''top_p'' d) headers)
      else snd (anthropic_handle_request py_str h upstream (AList.delete ''top_p'' d) headers))"
  by (simp add: messages_endpoint_def Let_def split: prod.splits outcome.splits)

lemma route_answers_invalid_request:
  assumes "py_in ''top_p'' d" and "\<not> validate_anthropic_request (AList.delete ''top_p'' d)"
  shows "messages_endpoint py_str request_handler upstream headers (JDict d) =
           (if truthy (py_get d ''stream'' (JBool False))
            then StreamingResponse [] (Some (ValueError ''Invalid Anthropic request format''))
            else HTTPException 400 ''Invalid Anthropic request format'', [])"
  using assms
  by (simp add: messages_endpoint_def Let_def anthropic_handle_request_def
        anthropic_handle_stream_request_def except_clauses_def is_JSONDecodeError_def
        is_ValueError_def)

text \<open>
  Claim C10. The route pops \<^verbatim>\<open>top_p\<close> from every body before it validates or forwards. For
  a body without the key the pop raises \<^verbatim>\<open>KeyError\<close>, which the route's last \<^verbatim>\<open>except\<close> clause
  turns into status 500 "Internal server error", with no request sent (and whether the body
  would pass validation or not); for a body with the key, no request sent to the upstream
  carries \<^verbatim>\<open>top_p\<close>. A body that is no JSON object has no keys; it fails one line earlier, at
  \<^verbatim>\<open>request_data.get\<close>, with the same answer.
\<close>

theorem top_p_always_popped:
  "(\<not> py_in ''top_p'' d \<longrightarrow>
      messages_endpoint py_str request_handler upstream headers (JDict d) =
        (except_clauses (KeyError ''top_p''), []) \<and>
      except_clauses (KeyError ''top_p'') = HTTPException 500 ''Internal server error'') \<and>
   (py_in ''top_p'' d \<longrightarrow>
      (\<forall>req \<in> set (snd (messages_endpoint py_str request_handler upstream headers (JDict d))).
         \<not> py_in ''top_p'' (req_json req))) \<and>
   (\<not> is_dict body \<longrightarrow>
      messages_endpoint py_str request_handler upstream headers body =
        (HTTPException 500 ''Internal server error'', []))"
proof -
  have nd: "\<not> is_dict body \<longrightarrow>
      messages_endpoint py_str request_handler upstream headers body =
        (HTTPException 500 ''Internal server error'', [])"
    by (cases body)
       (simp_all add: is_dict_def messages_endpoint_def except_clauses_def
          is_JSONDecodeError_def is_ValueError_def)
  have a: "\<not> py_in ''top_p'' d \<longrightarrow>
      messages_endpoint py_str request_handler upstream headers (JDict d) =
        (except_clauses (KeyError ''top_p''), [])"
    by (simp add: messages_endpoint_def Let_def)
  have b: "except_clauses (KeyError ''top_p'') = HTTPException 500 ''Internal server error''"
    by (simp add: except_clauses_def is_JSONDecodeError_def is_ValueError_def)
  have c: "\<not> py_in ''top_p'' (req_json req)"
    if "py_in ''top_p'' d"
      and "req \<in> set (snd (messages_endpoint py_str request_handler upstream headers (JDict d)))"
    for req
  proof -
    from that have "\<exists>ms. req_json req = AList.update ''messages'' ms (AList.delete ''top_p'' d)"
      using sent_anthropic_handle_request sent_anthropic_handle_stream_request
      by (simp add: snd_messages_endpoint split: if_splits)
    then show ?thesis by (auto simp add: py_in_def AList.update_conv' AList.delete_conv')
  qed
  show ?thesis using a b c nd by blast
qed

theorem top_p_always_popped_witness:
  "\<not> py_in ''top_p''
       [(''model'', JStr ''m''),
        (''messages'', JList [JDict [(''role'', JStr ''user''), (''content'', JStr ''hi'')]])] \<and>
   validate_anthropic_request
       [(''model'', JStr ''m''),
        (''messages'', JList [JDict [(''role'', JStr ''user''), (''content'', JStr ''hi'')]])] \<and>
   messages_endpoint (\<lambda>v. [])
     (AnthropicRequestHandler ''https://api.anthropic.com'' ''key'' ''1h'')
     (\<lambda>request. PostResponds \<lparr>raise_for_status = None,
                               json_body = Inr (JDict [(''id'', JStr ''msg_1'')]),
                               content_reads = []\<rparr>)
     []
     (JDict [(''model'', JStr ''m''),
             (''messages'', JList [JDict [(''role'', JStr ''user''), (''content'', JStr ''hi'')]])]) =
     (HTTPException 500 ''Internal server error'', []) \<and>
   py_in ''top_p''
       [(''model'', JStr ''m''), (''top_p'', JInt 1),
        (''messages'', JList [JDict [(''role'', JStr ''user''), (''content'', JStr ''hi'')]])] \<and>
   list_all (\<lambda>req. \<not> py_in ''top_p'' (req_json req))
     (snd (messages_endpoint (\<lambda>v. [])
        (AnthropicRequestHandler ''https://api.anthropic.com'' ''key'' ''1h'')
        (\<lambda>request. PostResponds \<lparr>raise_for_status = None,
                                  json_body = Inr (JDict [(''id'', JStr ''msg_1'')]),
                                  content_reads = []\<rparr>)
        []
        (JDict [(''model'', JStr ''m''), (''top_p'', JInt 1),
                (''messages'', JList [JDict [(''role'', JStr ''user''), (''content'', JStr ''hi'')]])]))) \<and>
   length (snd (messages_endpoint (\<lambda>v. [])
        (AnthropicRequestHandler ''https://api.anthropic.com'' ''key'' ''1h'')
        (\<lambda>request. PostResponds \<lparr>raise_for_status = None,
                                  json_body = Inr (JDict [(''id'', JStr ''msg_1'')]),
                                  content_reads = []\<rparr>)
        []
        (JDict [(''model'', JStr ''m''), (''top_p'', JInt 1),
                (''messages'', JList [JDict [(''role'', JStr ''user''), (''content'', JStr ''hi'')]])]))) = 1"
proof -
  let ?d0 = "[(''model'', JStr ''m''),
        (''messages'', JList [JDict [(''role'', JStr ''user''), (''content'', JStr ''hi'')]])]"
  let ?d1 = "[(''model'', JStr ''m''), (''top_p'', JInt 1),
        (''messages'', JList [JDict [(''role'', JStr ''user''), (''content'', JStr ''hi'')]])]"
  let ?h = "AnthropicRequestHandler ''https://api.anthropic.com'' ''key'' ''1h''"
  let ?u = "\<lambda>request::sent_request. PostResponds \<lparr>raise_for_status = None,
                               json_body = Inr (JDict [(''id'', JStr ''msg_1'')]),
                               content_reads = []\<rparr>"
  have h0: "\<not> py_in ''top_p'' ?d0" by (simp add: py_in_def)
  have v0: "validate_anthropic_request ?d0"
    by (simp add: validate_anthropic_request_def py_in_def py_get_def)
  have h1: "py_in ''top_p'' ?d1" by (simp add: py_in_def)
  note a = top_p_always_popped[where d = ?d0 and py_str = "\<lambda>v. []" and request_handler = ?h
      and upstream = ?u and headers = "[]", THEN conjunct1, THEN mp, OF h0]
  note b = top_p_always_popped[where d = ?d1 and py_str = "\<lambda>v. []" and request_handler = ?h
      and upstream = ?u and headers = "[]", THEN conjunct2, THEN conjunct1, THEN mp, OF h1]
  have c: "length (snd (messages_endpoint (\<lambda>v. []) ?h ?u [] (JDict ?d1))) = 1"
    by (simp add: messages_endpoint_def py_in_def py_get_def anthropic_handle_request_def
        validate_anthropic_request_def normalized_request_def standardize_cache_control_def
        place_cache_control_def forward_to_anthropic_def post_json_def Let_def
        split: prod.splits outcome.splits)
  show ?thesis using h0 v0 h1 a b c by (simp add: list_all_iff)
qed

subsection \<open>The unary forwarders\<close>

lemma envelope_kind_error_envelope [simp]:
  "envelope_kind (error_envelope kind message) = Some (JStr kind)"
  by (simp add: envelope_kind_def error_envelope_def)

lemma openai_new_session_raises:
  "openai_new_session =
     Inl (TypeError (''TCPConnector.__init__() got an unexpected keyword argument '' @
                     [CHR 0x27] @ ''proxy'' @ [CHR 0x27]))"
  by (simp add: openai_new_session_def TCPConnector_def TCPConnector_parameters_def)

lemma openai_get_session_open:
  "session self = Some s \<Longrightarrow> \<not> session_closed s \<Longrightarrow> openai_get_session self = Inr s"
  by (simp add: openai_get_session_def)

lemma openai_get_session_iff:
  "openai_get_session self = Inr s \<longleftrightarrow> session self = Some s \<and> \<not> session_closed s"
  by (auto simp add: openai_get_session_def openai_new_session_raises split: option.splits)

text \<open>
  A handler as \<^verbatim>\<open>OpenAIRequestHandler(api_url, api_key)\<close> builds it has no session; nothing in
  the source gives it one. On such a handler both OpenRouter forwarders end with the
  \<^verbatim>\<open>TypeError\<close> of the connector, and send nothing.
\<close>

lemma forward_to_api_without_session:
  "forward_to_api (OpenAIRequestHandler url key) upstream request_data headers =
     (Raise (TypeError (''TCPConnector.__init__() got an unexpected keyword argument '' @
                        [CHR 0x27] @ ''proxy'' @ [CHR 0x27])), [])"
  by (simp add: forward_to_api_def openai_get_session_def openai_new_session_raises
        OpenAIRequestHandler_def Let_def)

lemma forward_stream_to_api_without_session:
  "forward_stream_to_api (OpenAIRequestHandler url key) upstream request_data headers =
     (([], Some (TypeError (''TCPConnector.__init__() got an unexpected keyword argument '' @
                            [CHR 0x27] @ ''proxy'' @ [CHR 0x27]))), [])"
  by (simp add: forward_stream_to_api_def openai_get_session_def openai_new_session_raises
        OpenAIRequestHandler_def Let_def)




section \<open>Properties of the streaming forwarders\<close>

subsection \<open>An error frame reads back\<close>



lemma hexdigit_cases:
  assumes "k < (16::nat)"
  obtains "k = 0" | "k = 1" | "k = 2" | "k = 3" | "k = 4" | "k = 5" | "k = 6" | "k = 7"
    | "k = 8" | "k = 9" | "k = 10" | "k = 11" | "k = 12" | "k = 13" | "k = 14" | "k = 15"
  using assms by (auto simp add: less_Suc_eq numeral_eq_Suc)

lemma hexval_hexdigit: "k < 16 \<Longrightarrow> hexval (''0123456789abcdef'' ! k) = Some k"
  by (erule hexdigit_cases) (simp_all add: hexval_def)

lemma hexdigit_plain:
  "k < 16 \<Longrightarrow> of_char (''0123456789abcdef'' ! k) < (128::nat) \<and>
     ''0123456789abcdef'' ! k \<noteq> CHR 0x0A"
  by (erule hexdigit_cases) simp_all

lemma of_char_div16: "of_char (c::char) div 16 < (16::nat)"
proof -
  have "of_char c < (256::nat)" by simp
  then show ?thesis by (simp add: less_mult_imp_div_less)
qed

lemma escape_char_plain:
  "x \<in> set (escape_char c) \<Longrightarrow> of_char x < (128::nat) \<and> x \<noteq> CHR 0x0A"
  using hexdigit_plain[OF of_char_div16[of c]] hexdigit_plain[of "of_char c mod 16"]
  by (auto simp add: escape_char_def split: if_splits)


lemma string_body_quote [simp]: "string_body (CHR 0x22 # rest) = Some ([], rest)"
  by (cases rest) simp_all

lemma string_body_hex:
  "string_body (CHR 0x5C # CHR ''u'' # CHR ''0'' # CHR ''0'' #
       ''0123456789abcdef'' ! (of_char c div 16) #
       ''0123456789abcdef'' ! (of_char c mod 16) # rest) =
     prepend c (string_body rest)"
proof -
  have z: "hexval CHR ''0'' = Some 0" by (simp add: hexval_def)
  have "(of_char c :: nat) div 16 * 16 + of_char c mod 16 = of_char c" by simp
  moreover have "of_char c < (256::nat)" by simp
  ultimately show ?thesis
    using hexval_hexdigit[OF of_char_div16[of c]] hexval_hexdigit[of "of_char c mod 16"]
    by (simp add: z)
qed

lemma string_body_escape:
  "string_body (escape_char c @ x # xs) = prepend c (string_body (x # xs))"
proof (cases "c = CHR 0x22 \<or> c = CHR 0x5C \<or> c = CHR 0x0A \<or> c = CHR 0x0D \<or> c = CHR 0x09 \<or>
              c = CHR 0x08 \<or> c = CHR 0x0C \<or> ((32::nat) \<le> of_char c \<and> of_char c \<le> (126::nat))")
  case True
  then show ?thesis
    by (elim disjE) (simp_all add: escape_char_def simple_escape_def)
next
  case False
  then have "escape_char c = [CHR 0x5C, CHR ''u'', CHR ''0'', CHR ''0'',
            ''0123456789abcdef'' ! (of_char c div 16),
            ''0123456789abcdef'' ! (of_char c mod 16)]"
    by (simp add: escape_char_def)
  then show ?thesis
    by (simp only: append_Cons append_Nil string_body_hex)
qed

lemma string_body_escape_append:
  "ys \<noteq> [] \<Longrightarrow> string_body (escape_char c @ ys) = prepend c (string_body ys)"
  by (cases ys) (simp_all add: string_body_escape del: string_body.simps)

lemma string_body_encode:
  "string_body (concat (map escape_char s) @ CHR 0x22 # rest) = Some (s, rest)"
  by (induction s) (simp_all add: string_body_escape_append prepend_def)

lemma expect_append [simp]: "expect lit (lit @ s) = Some s"
  by (simp add: expect_def)

lemma loads_dumps: "loads_error (dumps_error_data kind message) = Some (kind, message)"
proof -
  have "dumps_error_data kind message =
      ''{\"error\": {\"type\": \"'' @ (concat (map escape_char kind) @ CHR 0x22 #
        ('', \"message\": \"'' @ (concat (map escape_char message) @ CHR 0x22 # ''}}'')))"
    by (simp add: dumps_error_data_def encode_basestring_ascii_def)
  then show ?thesis
    unfolding loads_error_def
    apply (simp only: expect_append string_body_encode option.case prod.case)
    apply simp
    done
qed


lemma utf8_encode_ascii: "\<forall>c \<in> set s. of_char c < (128::nat) \<Longrightarrow> utf8_encode s = s"
  by (induction s) (simp_all add: utf8_encode_def)

lemma concat_escape_plain:
  "x \<in> set (concat (map escape_char s)) \<Longrightarrow> of_char x < (128::nat) \<and> x \<noteq> CHR 0x0A"
  using escape_char_plain by auto

lemma dumps_plain:
  "x \<in> set (dumps_error_data kind message) \<Longrightarrow> of_char x < (128::nat) \<and> x \<noteq> CHR 0x0A"
  unfolding dumps_error_data_def encode_basestring_ascii_def
  using concat_escape_plain[of x kind] concat_escape_plain[of x message]
  by (simp only: set_append Un_iff) auto

lemma split_on_plain: "sep \<notin> set s \<Longrightarrow> split_on sep (s @ sep # rest) = s # split_on sep rest"
  by (induction s) auto

lemma split_on_end [simp]: "split_on sep [sep] = [[], []]"
  by simp

lemma split_on_frame:
  assumes "CHR 0x0A \<notin> set a" and "CHR 0x0A \<notin> set b"
  shows "split_on CHR 0x0A (a @ CHR 0x0A # (b @ CHR 0x0A # [CHR 0x0A])) = [a, b, [], []]"
proof -
  have "split_on CHR 0x0A (a @ CHR 0x0A # (b @ CHR 0x0A # [CHR 0x0A])) =
          a # split_on CHR 0x0A (b @ CHR 0x0A # [CHR 0x0A])"
    by (rule split_on_plain[OF assms(1)])
  also have "split_on CHR 0x0A (b @ CHR 0x0A # [CHR 0x0A]) = b # split_on CHR 0x0A [CHR 0x0A]"
    by (rule split_on_plain[OF assms(2)])
  finally show ?thesis by simp
qed

lemma split_on_frame1:
  assumes "CHR 0x0A \<notin> set b"
  shows "split_on CHR 0x0A (b @ CHR 0x0A # [CHR 0x0A]) = [b, [], []]"
  using split_on_plain[OF assms, of "[CHR 0x0A]"] by simp

lemma field_data: "field_of_line (''data: '' @ d) = Some (''data'', d)"
  by simp

lemma anthropic_chunk_fields:
  "sse_fields (anthropic_error_chunk kind message) =
     Some [(''event'', ''error''), (''data'', dumps_error_data kind message)]"
proof -
  let ?d = "dumps_error_data kind message"
  have ascii: "\<forall>c \<in> set (''event: error\<newline>data: '' @ ?d @ ''\<newline>\<newline>''). of_char c < (128::nat)"
    using dumps_plain[of _ kind message] by auto
  have chunk: "anthropic_error_chunk kind message =
      ''event: error'' @ CHR 0x0A # ((''data: '' @ ?d) @ CHR 0x0A # [CHR 0x0A])"
    unfolding anthropic_error_chunk_def utf8_encode_ascii[OF ascii] by simp
  have nl1: "CHR 0x0A \<notin> set ''event: error''" by simp
  have nl2: "CHR 0x0A \<notin> set (''data: '' @ ?d)" using dumps_plain[of _ kind message] by auto
  have sp: "split_on CHR 0x0A (anthropic_error_chunk kind message) =
      [''event: error'', ''data: '' @ ?d, [], []]"
    unfolding chunk by (rule split_on_frame[OF nl1 nl2])
  have f: "those_fields [''event: error'', ''data: '' @ ?d] =
             Some [(''event'', ''error''), (''data'', ?d)]"
    by simp
  show ?thesis unfolding sse_fields_def sp Let_def using f by simp
qed

lemma openai_chunk_fields:
  "sse_fields (openai_error_chunk kind message) = Some [(''data'', dumps_error_data kind message)]"
proof -
  let ?d = "dumps_error_data kind message"
  have ascii: "\<forall>c \<in> set (''data: '' @ ?d @ ''\<newline>\<newline>''). of_char c < (128::nat)"
    using dumps_plain[of _ kind message] by auto
  have chunk: "openai_error_chunk kind message = (''data: '' @ ?d) @ CHR 0x0A # [CHR 0x0A]"
    unfolding openai_error_chunk_def utf8_encode_ascii[OF ascii] by simp
  have nl2: "CHR 0x0A \<notin> set (''data: '' @ ?d)" using dumps_plain[of _ kind message] by auto
  have sp: "split_on CHR 0x0A (openai_error_chunk kind message) = [''data: '' @ ?d, [], []]"
    unfolding chunk by (rule split_on_frame1[OF nl2])
  have f: "those_fields [''data: '' @ ?d] = Some [(''data'', ?d)]"
    by simp
  show ?thesis unfolding sse_fields_def sp Let_def using f by simp
qed

lemma frame_error_anthropic [simp]:
  "frame_error (anthropic_error_chunk kind message) = Some (kind, message)"
  by (simp add: frame_error_def anthropic_chunk_fields loads_dumps)

lemma frame_error_openai [simp]:
  "frame_error (openai_error_chunk kind message) = Some (kind, message)"
  by (simp add: frame_error_def openai_chunk_fields loads_dumps)


subsection \<open>Failure before the stream\<close>





subsection \<open>Failure in the middle of the stream\<close>

lemma relay_chunks_then_raise:
  "\<forall>c \<in> set chunks. c \<noteq> [] \<Longrightarrow>
   relay (map ReadReturns chunks @ ReadRaises e # reads) = (chunks, Some e)"
  by (induction chunks) simp_all

text \<open>
  Claim C5. A body is read only after a POST, which the OpenRouter forwarder makes on a
  handler that holds an open session, and only there. When the POST succeeds, the reads
  give the non-empty chunks \<open>chunks\<close> and the next read raises a payload error or a
  timeout, the stream is exactly those chunks, in order, followed by one error frame, and
  it ends without raising. The frame is a well-formed
  event block (an \<^verbatim>\<open>event: error\<close> line in the Anthropic variant, the \<^verbatim>\<open>data\<close> line, an empty
  line) and its \<^verbatim>\<open>data\<close> value reads as the JSON error envelope of kind
  \<^verbatim>\<open>stream_interrupted\<close>.
\<close>

theorem mid_stream_failure_relayed_then_one_frame:
  "(upstream \<lparr>req_url = messages_endpoint_url self,
               req_headers = anthropic_prepare_headers self headers,
               req_json = request_data\<rparr> = PostResponds response \<and>
    raise_for_status response = None \<and>
    content_reads response = map ReadReturns chunks @ ReadRaises e # reads \<and>
    (\<forall>c \<in> set chunks. c \<noteq> []) \<and>
    (is_ClientPayloadError e \<or> is_TimeoutError e) \<longrightarrow>
      fst (forward_stream_to_anthropic self upstream request_data headers) =
        (chunks @ [anthropic_error_chunk ''stream_interrupted''
                     (''Streaming interrupted due to: '' @ exn_str e)], None) \<and>
      sse_fields (anthropic_error_chunk ''stream_interrupted''
                    (''Streaming interrupted due to: '' @ exn_str e)) =
        Some [(''event'', ''error''),
              (''data'', dumps_error_data ''stream_interrupted''
                           (''Streaming interrupted due to: '' @ exn_str e))]) \<and>
   (session oself = Some s \<and> \<not> session_closed s \<and>
    upstream \<lparr>req_url = chat_endpoint oself,
               req_headers = openai_prepare_headers oself headers,
               req_json = request_data\<rparr> = PostResponds response \<and>
    raise_for_status response = None \<and>
    content_reads response = map ReadReturns chunks @ ReadRaises e # reads \<and>
    (\<forall>c \<in> set chunks. c \<noteq> []) \<and>
    (is_ClientPayloadError e \<or> is_TimeoutError e) \<longrightarrow>
      fst (forward_stream_to_api oself upstream request_data headers) =
        (chunks @ [openai_error_chunk ''stream_interrupted''
                     (''Streaming interrupted due to: '' @ exn_str e)], None) \<and>
      sse_fields (openai_error_chunk ''stream_interrupted''
                    (''Streaming interrupted due to: '' @ exn_str e)) =
        Some [(''data'', dumps_error_data ''stream_interrupted''
                           (''Streaming interrupted due to: '' @ exn_str e))]) \<and>
   loads_error (dumps_error_data ''stream_interrupted''
                  (''Streaming interrupted due to: '' @ exn_str e)) =
     Some (''stream_interrupted'', ''Streaming interrupted due to: '' @ exn_str e)"
proof (intro conjI impI)
  assume "upstream \<lparr>req_url = messages_endpoint_url self,
               req_headers = anthropic_prepare_headers self headers,
               req_json = request_data\<rparr> = PostResponds response \<and>
    raise_for_status response = None \<and>
    content_reads response = map ReadReturns chunks @ ReadRaises e # reads \<and>
    (\<forall>c \<in> set chunks. c \<noteq> []) \<and>
    (is_ClientPayloadError e \<or> is_TimeoutError e)"
  then show "fst (forward_stream_to_anthropic self upstream request_data headers) =
        (chunks @ [anthropic_error_chunk ''stream_interrupted''
                     (''Streaming interrupted due to: '' @ exn_str e)], None)"
    by (simp add: forward_stream_to_anthropic_def Let_def relay_chunks_then_raise)
next
  assume "session oself = Some s \<and> \<not> session_closed s \<and>
    upstream \<lparr>req_url = chat_endpoint oself,
               req_headers = openai_prepare_headers oself headers,
               req_json = request_data\<rparr> = PostResponds response \<and>
    raise_for_status response = None \<and>
    content_reads response = map ReadReturns chunks @ ReadRaises e # reads \<and>
    (\<forall>c \<in> set chunks. c \<noteq> []) \<and>
    (is_ClientPayloadError e \<or> is_TimeoutError e)"
  then show "fst (forward_stream_to_api oself upstream request_data headers) =
        (chunks @ [openai_error_chunk ''stream_interrupted''
                     (''Streaming interrupted due to: '' @ exn_str e)], None)"
    by (simp add: forward_stream_to_api_def openai_get_session_def Let_def
          relay_chunks_then_raise)
qed (simp_all only: anthropic_chunk_fields openai_chunk_fields loads_dumps)

theorem mid_stream_failure_witness:
  "content_reads \<lparr>raise_for_status = None, json_body = Inl (JSONDecodeError []),
                   content_reads = [ReadReturns ''data: a'', ReadReturns ''data: b'',
                                    ReadRaises (ClientPayloadError ''Response payload is not completed'')]\<rparr> =
     map ReadReturns [''data: a'', ''data: b''] @
       ReadRaises (ClientPayloadError ''Response payload is not completed'') # [] \<and>
   is_ClientPayloadError (ClientPayloadError ''Response payload is not completed'') \<and>
   fst (forward_stream_to_anthropic
          (AnthropicRequestHandler ''https://api.anthropic.com'' ''key'' ''1h'')
          (\<lambda>request. PostResponds
             \<lparr>raise_for_status = None, json_body = Inl (JSONDecodeError []),
              content_reads = [ReadReturns ''data: a'', ReadReturns ''data: b'',
                               ReadRaises (ClientPayloadError ''Response payload is not completed'')]\<rparr>)
          [(''model'', JStr ''m'')] []) =
     ([''data: a'', ''data: b'',
       anthropic_error_chunk ''stream_interrupted''
         ''Streaming interrupted due to: Response payload is not completed''], None) \<and>
   frame_error (anthropic_error_chunk ''stream_interrupted''
         ''Streaming interrupted due to: Response payload is not completed'') =
     Some (''stream_interrupted'', ''Streaming interrupted due to: Response payload is not completed'') \<and>
   session ((OpenAIRequestHandler ''https://openrouter.ai/api/v1'' ''key'')
              \<lparr>session := Some \<lparr>session_closed = False\<rparr>\<rparr>) =
     Some \<lparr>session_closed = False\<rparr> \<and>
   \<not> session_closed \<lparr>session_closed = False\<rparr> \<and>
   fst (forward_stream_to_api
          ((OpenAIRequestHandler ''https://openrouter.ai/api/v1'' ''key'')
             \<lparr>session := Some \<lparr>session_closed = False\<rparr>\<rparr>)
          (\<lambda>request. PostResponds
             \<lparr>raise_for_status = None, json_body = Inl (JSONDecodeError []),
              content_reads = [ReadReturns ''data: a'', ReadReturns ''data: b'',
                               ReadRaises (ClientPayloadError ''Response payload is not completed'')]\<rparr>)
          [(''model'', JStr ''m'')] []) =
     ([''data: a'', ''data: b'',
       openai_error_chunk ''stream_interrupted''
         ''Streaming interrupted due to: Response payload is not completed''], None) \<and>
   frame_error (openai_error_chunk ''stream_interrupted''
         ''Streaming interrupted due to: Response payload is not completed'') =
     Some (''stream_interrupted'', ''Streaming interrupted due to: Response payload is not completed'')"
proof -
  let ?h = "AnthropicRequestHandler ''https://api.anthropic.com'' ''key'' ''1h''"
  let ?o = "(OpenAIRequestHandler ''https://openrouter.ai/api/v1'' ''key'')
              \<lparr>session := Some \<lparr>session_closed = False\<rparr>\<rparr>"
  let ?e = "ClientPayloadError ''Response payload is not completed''"
  let ?resp = "\<lparr>raise_for_status = None, json_body = Inl (JSONDecodeError []),
              content_reads = [ReadReturns ''data: a'', ReadReturns ''data: b'', ReadRaises ?e]\<rparr>"
  let ?u = "\<lambda>request::sent_request. PostResponds ?resp"
  have p: "?u \<lparr>req_url = messages_endpoint_url ?h,
               req_headers = anthropic_prepare_headers ?h [],
               req_json = [(''model'', JStr ''m'')]\<rparr> = PostResponds ?resp \<and>
    raise_for_status ?resp = None \<and>
    content_reads ?resp = map ReadReturns [''data: a'', ''data: b''] @ ReadRaises ?e # [] \<and>
    (\<forall>c \<in> set [''data: a'', ''data: b'']. c \<noteq> []) \<and>
    (is_ClientPayloadError ?e \<or> is_TimeoutError ?e)"
    by (simp add: is_ClientPayloadError_def)
  have q: "session ?o = Some \<lparr>session_closed = False\<rparr> \<and>
    \<not> session_closed \<lparr>session_closed = False\<rparr> \<and>
    ?u \<lparr>req_url = chat_endpoint ?o,
               req_headers = openai_prepare_headers ?o [],
               req_json = [(''model'', JStr ''m'')]\<rparr> = PostResponds ?resp \<and>
    raise_for_status ?resp = None \<and>
    content_reads ?resp = map ReadReturns [''data: a'', ''data: b''] @ ReadRaises ?e # [] \<and>
    (\<forall>c \<in> set [''data: a'', ''data: b'']. c \<noteq> []) \<and>
    (is_ClientPayloadError ?e \<or> is_TimeoutError ?e)"
    by (simp add: is_ClientPayloadError_def OpenAIRequestHandler_def)
  note r = mid_stream_failure_relayed_then_one_frame[where upstream = ?u and self = ?h
      and headers = "[]" and request_data = "[(''model'', JStr ''m'')]" and e = ?e
      and response = ?resp and chunks = "[''data: a'', ''data: b'']" and reads = "[]",
      THEN conjunct1, THEN mp, OF p, THEN conjunct1]
  note r2 = mid_stream_failure_relayed_then_one_frame[where upstream = ?u and oself = ?o
      and headers = "[]" and request_data = "[(''model'', JStr ''m'')]" and e = ?e
      and response = ?resp and chunks = "[''data: a'', ''data: b'']" and reads = "[]"
      and s = "\<lparr>session_closed = False\<rparr>",
      THEN conjunct2, THEN conjunct1, THEN mp, OF q, THEN conjunct1]
  show ?thesis using r r2 by (simp add: is_ClientPayloadError_def OpenAIRequestHandler_def)
qed

section \<open>The normalizer does not change what it is given\<close>

lemma frame_iff: "frame h0 h \<longleftrightarrow> (\<exists>ext. h = h0 @ ext)"
  unfolding frame_def
  by (metis append_eq_conv_conj append_take_drop_id length_append le_add1)

lemma frame_refl [simp]: "frame h h"
  by (simp add: frame_def)

lemma frame_trans: "frame h0 h1 \<Longrightarrow> frame h1 h2 \<Longrightarrow> frame h0 h2"
  by (auto simp add: frame_iff)

lemma frame_length: "frame h0 h \<Longrightarrow> length h0 \<le> length h"
  by (simp add: frame_def)

lemma frame_nth: "frame h0 h \<Longrightarrow> a < length h0 \<Longrightarrow> h ! a = h0 ! a"
  by (auto simp add: frame_iff nth_append)

lemma frame_snoc: "frame h0 h \<Longrightarrow> frame h0 (h @ [ob])"
  by (auto simp add: frame_iff)

lemma frame_update: "frame h0 h \<Longrightarrow> length h0 \<le> a \<Longrightarrow> frame h0 (h[a := ob])"
  by (auto simp add: frame_iff list_update_append)

lemma dict_at_Some:
  "dict_at h v = Some d \<longleftrightarrow> (\<exists>a. v = VRef a \<and> a < length h \<and> h ! a = ODict d)"
  by (auto simp add: dict_at_def split: val.splits obj.splits)

lemma list_at_Some:
  "list_at h v = Some xs \<longleftrightarrow> (\<exists>a. v = VRef a \<and> a < length h \<and> h ! a = OList xs)"
  by (auto simp add: list_at_def split: val.splits obj.splits)

lemma dict_at_frame: "frame h0 h \<Longrightarrow> dict_at h0 v = Some d \<Longrightarrow> dict_at h v = Some d"
  using frame_length[of h0 h] by (auto simp add: dict_at_Some frame_nth)

lemma list_at_frame: "frame h0 h \<Longrightarrow> list_at h0 v = Some xs \<Longrightarrow> list_at h v = Some xs"
  using frame_length[of h0 h] by (auto simp add: list_at_Some frame_nth)

lemma dict_at_old_None: "frame h0 h \<Longrightarrow> dict_at h v = None \<Longrightarrow> dict_at h0 v = None"
  using dict_at_frame by (cases "dict_at h0 v") fastforce+

lemma list_at_old_None: "frame h0 h \<Longrightarrow> list_at h v = None \<Longrightarrow> list_at h0 v = None"
  using list_at_frame by (cases "list_at h0 v") fastforce+

lemma dict_at_fresh [simp]: "length h0 \<le> a \<Longrightarrow> dict_at h0 (VRef a) = None"
  by (simp add: dict_at_def)

lemma list_at_fresh [simp]: "length h0 \<le> a \<Longrightarrow> list_at h0 (VRef a) = None"
  by (simp add: list_at_def)

lemma dict_at_new:
  "frame h0 h \<Longrightarrow> dict_at h v = Some d \<Longrightarrow> dict_at h0 v = None \<Longrightarrow>
   \<exists>a. v = VRef a \<and> length h0 \<le> a \<and> a < length h \<and> h ! a = ODict d"
  by (smt (verit) dict_at_Some frame_nth linorder_not_le option.distinct(1))

lemma list_at_new:
  "frame h0 h \<Longrightarrow> list_at h v = Some xs \<Longrightarrow> list_at h0 v = None \<Longrightarrow>
   \<exists>a. v = VRef a \<and> length h0 \<le> a \<and> a < length h \<and> h ! a = OList xs"
  by (smt (verit) list_at_Some frame_nth linorder_not_le option.distinct(1))

lemma nth_update_in: "j < length h \<Longrightarrow> h[a := ob] ! j = (if a = j then ob else h ! j)"
  by (cases "a = j") auto

lemma inv_refl [simp]: "store_inv h h"
  by (auto simp add: store_inv_def new_lists_hold_no_old_dict_def)

lemma inv_frame: "store_inv h0 h \<Longrightarrow> frame h0 h"
  by (simp add: store_inv_def)

lemma inv_snoc_dict: "store_inv h0 h \<Longrightarrow> store_inv h0 (h @ [ODict d])"
  by (auto simp add: store_inv_def frame_snoc new_lists_hold_no_old_dict_def nth_append
        split: if_splits)

lemma inv_snoc_list:
  "store_inv h0 h \<Longrightarrow> \<forall>x \<in> set xs. dict_at h0 x = None \<Longrightarrow> store_inv h0 (h @ [OList xs])"
  by (auto simp add: store_inv_def frame_snoc new_lists_hold_no_old_dict_def nth_append
        split: if_splits)

lemma inv_update_dict:
  "store_inv h0 h \<Longrightarrow> length h0 \<le> a \<Longrightarrow> store_inv h0 (h[a := ODict d])"
  by (auto simp add: store_inv_def frame_update new_lists_hold_no_old_dict_def nth_update_in
        split: if_splits)

lemma inv_update_list:
  "store_inv h0 h \<Longrightarrow> length h0 \<le> a \<Longrightarrow> \<forall>x \<in> set xs. dict_at h0 x = None \<Longrightarrow>
   store_inv h0 (h[a := OList xs])"
  by (auto simp add: store_inv_def frame_update new_lists_hold_no_old_dict_def nth_update_in
        split: if_splits)

lemma inv_list_elems:
  "store_inv h0 h \<Longrightarrow> length h0 \<le> a \<Longrightarrow> a < length h \<Longrightarrow> h ! a = OList xs \<Longrightarrow>
   x \<in> set xs \<Longrightarrow> dict_at h0 x = None"
  by (auto simp add: store_inv_def new_lists_hold_no_old_dict_def)

lemma inv_list_append:
  assumes "store_inv h0 h" "length h0 \<le> a" "dict_at h0 v = None"
  shows "store_inv h0 (list_append (VRef a) v h)"
proof (cases "list_at h (VRef a)")
  case None
  then show ?thesis using assms by (simp add: list_append_def)
next
  case (Some xs)
  then have "a < length h" "h ! a = OList xs" by (auto simp add: list_at_Some)
  then have "\<forall>x \<in> set (xs @ [v]). dict_at h0 x = None"
    using assms inv_list_elems by auto
  then show ?thesis using Some assms by (simp add: list_append_def inv_update_list)
qed

lemma inv_set_item: "store_inv h0 h \<Longrightarrow> length h0 \<le> a \<Longrightarrow> store_inv h0 (set_item (VRef a) k v h)"
  by (cases "dict_at h (VRef a)") (simp_all add: set_item_def inv_update_dict)

lemma inv_del_item: "store_inv h0 h \<Longrightarrow> length h0 \<le> a \<Longrightarrow> store_inv h0 (del_item (VRef a) k h)"
  by (cases "dict_at h (VRef a)") (simp_all add: del_item_def inv_update_dict)


lemma length_list_append [simp]: "length (list_append l v h) = length h"
  by (simp add: list_append_def split: val.splits option.splits)

lemma length_set_item [simp]: "length (set_item r k v h) = length h"
  by (simp add: set_item_def split: val.splits option.splits)

lemma length_del_item [simp]: "length (del_item r k h) = length h"
  by (simp add: del_item_def split: val.splits option.splits)

lemma nth_list_append_other:
  "j < length h \<Longrightarrow> j \<noteq> a \<Longrightarrow> list_append (VRef a) v h ! j = h ! j"
  by (simp add: list_append_def nth_update_in split: option.splits)

lemma clean_blocks_inv:
  "store_inv h0 h \<Longrightarrow> length h0 \<le> c \<Longrightarrow> store_inv h0 (store_clean_blocks (VRef c) blocks h)"
proof (induction blocks arbitrary: h)
  case Nil
  then show ?case by simp
next
  case (Cons b blocks)
  show ?case
  proof (cases "dict_at h b")
    case None
    then have "dict_at h0 b = None" using Cons.prems(1) dict_at_old_None inv_frame by blast
    then have "store_inv h0 (list_append (VRef c) b h)"
      using Cons.prems by (intro inv_list_append)
    then show ?thesis using None Cons.IH Cons.prems(2) by simp
  next
    case (Some d)
    have "length h0 \<le> length h" using Cons.prems(1) frame_length inv_frame by blast
    then have "store_inv h0 (list_append (VRef c) (VRef (length h))
                 (h @ [ODict (AList.delete ''cache_control'' d)]))"
      using Cons.prems by (intro inv_list_append inv_snoc_dict) simp_all
    then show ?thesis using Some Cons.IH Cons.prems(2) by (simp add: alloc_def)
  qed
qed

lemma clean_blocks_other:
  "j < length h \<Longrightarrow> j \<noteq> c \<Longrightarrow>
   length h \<le> length (store_clean_blocks (VRef c) blocks h) \<and>
   store_clean_blocks (VRef c) blocks h ! j = h ! j"
proof (induction blocks arbitrary: h)
  case Nil
  then show ?case by simp
next
  case (Cons b blocks)
  show ?case
  proof (cases "dict_at h b")
    case None
    have "j < length (list_append (VRef c) b h)" using Cons.prems by simp
    from Cons.IH[OF this Cons.prems(2)] show ?thesis
      using None Cons.prems by (simp add: nth_list_append_other)
  next
    case (Some d)
    let ?h1 = "h @ [ODict (AList.delete ''cache_control'' d)]"
    have "j < length (list_append (VRef c) (VRef (length h)) ?h1)" using Cons.prems by simp
    from Cons.IH[OF this Cons.prems(2)] show ?thesis
      using Some Cons.prems by (simp add: alloc_def nth_list_append_other nth_append)
  qed
qed


lemma set_item_dict:
  "a < length h \<Longrightarrow> h ! a = ODict d \<Longrightarrow>
   set_item (VRef a) k v h = h[a := ODict (AList.update k v d)]"
  by (simp add: set_item_def dict_at_def)

lemma del_item_dict:
  "a < length h \<Longrightarrow> h ! a = ODict d \<Longrightarrow>
   del_item (VRef a) k h = h[a := ODict (AList.delete k d)]"
  by (simp add: del_item_def dict_at_def)

lemma store_clean_message_dict:
  "dict_at h m = Some d \<Longrightarrow>
   get_content d (if py_in ''cache_control'' d
                  then del_item (VRef (length h)) ''cache_control'' (h @ [ODict d])
                  else h @ [ODict d]) = (content, h3) \<Longrightarrow>
   store_clean_message m h =
      (case list_at h3 content of
         Some blocks \<Rightarrow>
           (Inr (VRef (length h)),
            set_item (VRef (length h)) ''content'' (VRef (length h3))
              (store_clean_blocks (VRef (length h3)) blocks (h3 @ [OList []])))
       | None \<Rightarrow> (Inr (VRef (length h)), h3))"
  by (simp add: store_clean_message_def alloc_def Let_def split: option.splits)

lemma clean_message_inv:
  assumes "store_inv h0 h" and "store_clean_message m h = (r, h')"
  shows "frame h0 h' \<and> (\<forall>cm. r = Inr cm \<longrightarrow> store_inv h0 h' \<and> cleaned_at h0 h' cm)"
proof (cases "dict_at h m")
  case None
  then have "h' = h \<or> (\<exists>xs. h' = h @ [OList xs])" and "\<forall>cm. r \<noteq> Inr cm"
    using assms(2)
    by (auto simp add: store_clean_message_def alloc_def split: option.splits if_splits)
  then show ?thesis using assms(1) inv_frame frame_snoc by blast
next
  case (Some d)
  define a where "a = length h"
  define d2 where "d2 = (if py_in ''cache_control'' d then AList.delete ''cache_control'' d else d)"
  define h1 where "h1 = h @ [ODict d]"
  define h2 where "h2 = (if py_in ''cache_control'' d
                          then del_item (VRef a) ''cache_control'' h1 else h1)"
  have n0: "length h0 \<le> a" using assms(1) frame_length inv_frame a_def by blast
  have h1: "store_inv h0 h1" "length h1 = Suc a" "h1 ! a = ODict d"
    using assms(1) by (simp_all add: h1_def a_def inv_snoc_dict)
  have "h1[a := ODict d] = h1" using h1 by (simp add: list_update_same_conv)
  then have h2eq: "h2 = h1[a := ODict d2]"
    using h1 by (simp add: h2_def d2_def del_item_dict)
  have h2: "store_inv h0 h2" "length h2 = Suc a" "h2 ! a = ODict d2"
    using h1 n0 by (simp_all add: h2eq inv_update_dict)
  have d2c: "map_of d2 ''content'' = map_of d ''content''"
    by (simp add: d2_def)
  obtain content h3 where gc: "get_content d h2 = (content, h3)" by fastforce
  have h3: "store_inv h0 h3" "a < length h3" "h3 ! a = ODict d2"
    and c0: "\<forall>c. map_of d ''content'' = Some c \<longrightarrow> c = content \<and> h3 = h2"
    using gc h2
    by (auto simp add: get_content_def alloc_def inv_snoc_list nth_append split: option.splits)
  have unfold: "store_clean_message m h =
      (case list_at h3 content of
         Some blocks \<Rightarrow>
           (Inr (VRef a),
            set_item (VRef a) ''content'' (VRef (length h3))
              (store_clean_blocks (VRef (length h3)) blocks (h3 @ [OList []])))
       | None \<Rightarrow> (Inr (VRef a), h3))"
    using store_clean_message_dict[OF Some gc[unfolded h2_def h1_def a_def]]
    unfolding a_def .
  show ?thesis
  proof (cases "list_at h3 content")
    case None
    with unfold assms(2) have r: "r = Inr (VRef a)" "h' = h3" by simp_all
    have "\<forall>c. map_of d2 ''content'' = Some c \<longrightarrow> list_at h0 c = None"
      using c0 d2c None h3(1) list_at_old_None inv_frame by metis
    then have "cleaned_at h0 h3 (VRef a)"
      using n0 h3 by (auto simp add: cleaned_at_def)
    then show ?thesis using r h3(1) inv_frame by auto
  next
    case (Some blocks)
    define c where "c = length h3"
    define h4 where "h4 = h3 @ [OList []]"
    define h5 where "h5 = store_clean_blocks (VRef c) blocks h4"
    from unfold assms(2) Some
    have r: "r = Inr (VRef a)" "h' = set_item (VRef a) ''content'' (VRef c) h5"
      by (simp_all add: c_def h4_def h5_def)
    have nc: "length h0 \<le> c" using h3(2) n0 c_def by simp
    have h4: "store_inv h0 h4" "a < length h4" "h4 ! a = ODict d2" "a \<noteq> c"
      using h3 by (simp_all add: h4_def inv_snoc_list nth_append c_def)
    have h5: "store_inv h0 h5" unfolding h5_def using h4(1) nc by (rule clean_blocks_inv)
    from clean_blocks_other[OF h4(2) h4(4), of blocks]
    have h5a: "a < length h5" "h5 ! a = ODict d2"
      using h4 by (simp_all add: h5_def)
    have h': "h' = h5[a := ODict (AList.update ''content'' (VRef c) d2)]"
      using r h5a by (simp add: set_item_dict)
    have "store_inv h0 h'" unfolding h' using h5 n0 by (rule inv_update_dict)
    moreover have "cleaned_at h0 h' (VRef a)"
      using n0 nc h5a by (auto simp add: cleaned_at_def h' AList.update_conv')
    ultimately show ?thesis using r inv_frame by auto
  qed
qed

lemma clean_message_frame:
  "store_clean_message m h = (r, h') \<Longrightarrow> frame h h'"
  using clean_message_inv[of h h m r h'] by simp

lemma cleaned_at_append_other:
  assumes "cleaned_at h0 h v" and "list_at h (VRef s) = Some xs"
  shows "cleaned_at h0 (list_append (VRef s) w h) v"
proof -
  from assms(1) obtain a d where a: "v = VRef a" "length h0 \<le> a" "a < length h" "h ! a = ODict d"
      "\<forall>c. map_of d ''content'' = Some c \<longrightarrow> list_at h0 c = None"
    by (auto simp add: cleaned_at_def)
  from assms(2) a(4) have "a \<noteq> s" by (auto simp add: list_at_Some)
  then have "list_append (VRef s) w h ! a = ODict d"
    using a(3,4) by (simp add: nth_list_append_other)
  then show ?thesis using a by (auto simp add: cleaned_at_def)
qed

lemma list_at_list_append:
  "list_at h (VRef s) = Some xs \<Longrightarrow>
   list_at (list_append (VRef s) v h) (VRef s) = Some (xs @ [v])"
  by (simp add: list_append_def) (auto simp add: list_at_Some)

lemma clean_messages_inv:
  assumes "store_inv h0 h" and "length h0 \<le> s" and "list_at h (VRef s) = Some xs"
    and "xs \<noteq> [] \<longrightarrow> cleaned_at h0 h (last xs)"
    and "store_clean_messages (VRef s) ms h = (r, h')"
  shows "frame h0 h' \<and>
         (r = None \<longrightarrow> store_inv h0 h' \<and>
            (\<exists>ys. list_at h' (VRef s) = Some ys \<and> (ys \<noteq> [] \<longrightarrow> cleaned_at h0 h' (last ys))))"
  using assms
proof (induction ms arbitrary: h xs)
  case Nil
  then show ?case using inv_frame by auto
next
  case (Cons m ms)
  obtain r1 h1 where m: "store_clean_message m h = (r1, h1)" by fastforce
  note mi = clean_message_inv[OF Cons.prems(1) m]
  show ?case
  proof (cases r1)
    case (Inl e)
    with m Cons.prems(5) have "h' = h1" "r = Some e" by simp_all
    then show ?thesis using mi by simp
  next
    case (Inr cm)
    with mi have i1: "store_inv h0 h1" and c1: "cleaned_at h0 h1 cm" by simp_all
    have l1: "list_at h1 (VRef s) = Some xs"
      using clean_message_frame[OF m] Cons.prems(3) by (rule list_at_frame)
    from c1 have fresh: "dict_at h0 cm = None" by (auto simp add: cleaned_at_def)
    define h2 where "h2 = list_append (VRef s) cm h1"
    have i2: "store_inv h0 h2" unfolding h2_def using i1 Cons.prems(2) fresh by (rule inv_list_append)
    have l2: "list_at h2 (VRef s) = Some (xs @ [cm])"
      unfolding h2_def using l1 by (rule list_at_list_append)
    have c2: "xs @ [cm] \<noteq> [] \<longrightarrow> cleaned_at h0 h2 (last (xs @ [cm]))"
      using cleaned_at_append_other[OF c1 l1] by (simp add: h2_def)
    have "store_clean_messages (VRef s) ms h2 = (r, h')"
      using Cons.prems(5) m Inr by (simp add: h2_def)
    from Cons.IH[OF i2 Cons.prems(2) l2 c2 this] show ?thesis .
  qed
qed


lemma frame_list_append:
  "frame h0 h \<Longrightarrow> length h0 \<le> a \<Longrightarrow> frame h0 (list_append (VRef a) v h)"
  by (simp add: list_append_def frame_update split: option.splits)

lemma frame_set_item:
  "frame h0 h \<Longrightarrow> length h0 \<le> a \<Longrightarrow> frame h0 (set_item (VRef a) k v h)"
  by (simp add: set_item_def frame_update split: option.splits)

lemma frame_text_block: "frame h0 h \<Longrightarrow> frame h0 (snd (store_text_block t directive h))"
  by (auto simp add: store_text_block_def alloc_def frame_iff)

lemma frame_new_content: "frame h0 h \<Longrightarrow> frame h0 (snd (store_new_content t directive h))"
  using frame_text_block[of h0 h t directive]
  by (auto simp add: store_new_content_def alloc_def frame_snoc split: prod.splits)

lemma mark_last_frame:
  assumes "store_inv h0 h" and "cleaned_at h0 h lm"
  shows "frame h0 (store_mark_last py_str directive lm h)"
proof -
  from assms(2) obtain a d where a: "lm = VRef a" "length h0 \<le> a" "a < length h" "h ! a = ODict d"
      "\<forall>c. map_of d ''content'' = Some c \<longrightarrow> list_at h0 c = None"
    by (auto simp add: cleaned_at_def)
  then have lm: "dict_at h lm = Some d" by (simp add: dict_at_Some)
  obtain content h1 where gc: "get_content d h = (content, h1)" by fastforce
  have h1: "store_inv h0 h1"
    using gc assms(1) by (auto simp add: get_content_def alloc_def inv_snoc_list split: option.splits)
  then have f1: "frame h0 h1" by (rule inv_frame)
  have cnew: "\<exists>ac. content = VRef ac \<and> length h0 \<le> ac \<and> ac < length h1 \<and> h1 ! ac = OList blocks"
    if "list_at h1 content = Some blocks" for blocks
  proof (cases "map_of d ''content''")
    case None
    with gc that show ?thesis
      using frame_length[OF inv_frame[OF assms(1)]]
      by (auto simp add: get_content_def alloc_def list_at_Some)
  next
    case (Some c)
    with gc have "content = c" "h1 = h" by (simp_all add: get_content_def)
    moreover from Some a(5) have "list_at h0 c = None" by simp
    ultimately show ?thesis using that f1 list_at_new by blast
  qed
  have unfold: "store_mark_last py_str directive lm h =
      (case list_at h1 content of
                  Some blocks \<Rightarrow>
                    (if blocks \<noteq> [] then
                       (case dict_at h1 (last blocks) of
                          Some b \<Rightarrow>
                            (case alloc directive h1 of
                               (dr, h2) \<Rightarrow> set_item (last blocks) ''cache_control'' (VRef dr) h2)
                        | None \<Rightarrow>
                            (case store_text_block
                                    (if store_truthy h1 (last blocks) then py_str h1 (last blocks)
                                     else []) directive h1 of
                               (b, h2) \<Rightarrow> list_append content b h2))
                     else snd (store_new_content [] directive h1))
                | None \<Rightarrow>
                    (case content of
                       VStr s \<Rightarrow>
                         (case store_new_content s directive h1 of
                            (l, h2) \<Rightarrow> set_item lm ''content'' l h2)
                     | _ \<Rightarrow>
                         (case store_new_content [] directive h1 of
                            (l, h2) \<Rightarrow> set_item lm ''content'' l h2)))"
    using lm gc by (simp add: store_mark_last_def)
  show ?thesis
  proof (cases "list_at h1 content")
    case None
    have "frame h0 (set_item lm ''content'' l h2)"
      if "store_new_content t directive h1 = (l, h2)" for t l h2
      using frame_new_content[OF f1, of t directive] that a(1,2) by (simp add: frame_set_item)
    then show ?thesis unfolding unfold using None
      by (auto split: val.splits prod.splits)
  next
    case (Some blocks)
    from cnew[OF Some] obtain ac where ac: "content = VRef ac" "length h0 \<le> ac"
        "ac < length h1" "h1 ! ac = OList blocks"
      by blast
    show ?thesis
    proof (cases "blocks = []")
      case True
      then show ?thesis unfolding unfold using Some frame_new_content[OF f1] by simp
    next
      case False
      show ?thesis
      proof (cases "dict_at h1 (last blocks)")
        case None
        have "frame h0 (list_append content b h2)"
          if "store_text_block t directive h1 = (b, h2)" for t b h2
          using frame_text_block[OF f1, of t directive] that ac(1,2)
          by (simp add: frame_list_append)
        then show ?thesis unfolding unfold using Some False None
          by (auto split: prod.splits)
      next
        case (Some b)
        have "dict_at h0 (last blocks) = None"
          using inv_list_elems[OF h1 ac(2,3,4)] False by simp
        with dict_at_new[OF f1 Some] obtain ab where ab: "last blocks = VRef ab" "length h0 \<le> ab"
          by blast
        have "frame h0 (set_item (VRef ab) ''cache_control'' v (h1 @ [directive]))" for v
          using f1 ab(2) by (intro frame_set_item frame_snoc)
        then show ?thesis unfolding unfold using \<open>list_at h1 content = Some blocks\<close> False Some ab(1)
          by (simp add: alloc_def)
      qed
    qed
  qed
qed

lemma store_place_cache_control_frame:
  "frame h (snd (store_place_cache_control py_str directive messages h))"
proof (cases "list_at h messages")
  case None
  then show ?thesis by (simp add: store_place_cache_control_def)
next
  case (Some ms)
  show ?thesis
  proof (cases "ms = []")
    case True
    then show ?thesis using Some by (simp add: store_place_cache_control_def)
  next
    case False
    define s where "s = length h"
    define h1 where "h1 = h @ [OList []]"
    obtain r h2 where cm: "store_clean_messages (VRef s) ms h1 = (r, h2)" by fastforce
    have i1: "store_inv h h1" unfolding h1_def by (intro inv_snoc_list) simp_all
    have l1: "list_at h1 (VRef s) = Some []" by (simp add: list_at_def h1_def s_def)
    have "length h \<le> s" by (simp add: s_def)
    from clean_messages_inv[OF i1 this l1 _ cm]
    have f2: "frame h h2"
      and ok: "r = None \<longrightarrow> store_inv h h2 \<and>
            (\<exists>ys. list_at h2 (VRef s) = Some ys \<and> (ys \<noteq> [] \<longrightarrow> cleaned_at h h2 (last ys)))"
      by simp_all
    have res: "snd (store_place_cache_control py_str directive messages h) =
        (case r of
           Some e \<Rightarrow> h2
         | None \<Rightarrow>
             (case list_at h2 (VRef s) of
                Some sm \<Rightarrow> if sm \<noteq> [] then store_mark_last py_str directive (last sm) h2 else h2
              | None \<Rightarrow> h2))"
      using Some False cm
      by (simp add: store_place_cache_control_def alloc_def Let_def s_def h1_def
            split: option.splits)
    show ?thesis
    proof (cases r)
      case (Some e)
      then show ?thesis using res f2 by simp
    next
      case None
      with ok obtain ys where ys: "store_inv h h2" "list_at h2 (VRef s) = Some ys"
          "ys \<noteq> [] \<longrightarrow> cleaned_at h h2 (last ys)"
        by blast
      then show ?thesis using res None f2 mark_last_frame by (cases "ys = []") simp_all
    qed
  qed
qed

text \<open>
  Claim C9. Whatever the store and the argument, the store a normalizer leaves is the store
  it was given with new objects after it: the list it was passed, every message in it,
  every content block and every other object that existed before the call is at its
  address with the fields it had. What the normalizer writes to, it has allocated itself.
\<close>

theorem normalizer_leaves_store_unchanged:
  "frame h (snd (store_standardize_cache_control py_str self messages h)) \<and>
   frame h (snd (store_add_cache_control_to_messages py_str messages h))"
  by (simp add: store_standardize_cache_control_def store_add_cache_control_to_messages_def
        store_place_cache_control_frame)

text \<open>
  The two embeddings of the normalizer on the same input: the value read back from the
  store the call leaves is the value the normalizer on values returns, also where the last
  content is the empty list, and the input reads as before.
\<close>

lemma store_and_values_agree:
  "store_add_cache_control_to_messages (\<lambda>h v. [])
     (VRef 0)
     [OList [VRef 1],
      ODict [(''role'', VStr ''user''), (''content'', VRef 2)],
      OList [VRef 3],
      ODict [(''type'', VStr ''text''), (''text'', VStr ''hi''), (''cache_control'', VNull)]] =
   (Inr (VRef 4),
    [OList [VRef 1],
     ODict [(''role'', VStr ''user''), (''content'', VRef 2)],
     OList [VRef 3],
     ODict [(''type'', VStr ''text''), (''text'', VStr ''hi''), (''cache_control'', VNull)],
     OList [VRef 5],
     ODict [(''role'', VStr ''user''), (''content'', VRef 6)],
     OList [VRef 7],
     ODict [(''type'', VStr ''text''), (''text'', VStr ''hi''), (''cache_control'', VRef 8)],
     ODict [(''type'', VStr ''ephemeral'')]]) \<and>
   add_cache_control_to_messages (\<lambda>v. [])
     [JDict [(''role'', JStr ''user''),
             (''content'', JList [JDict [(''type'', JStr ''text''), (''text'', JStr ''hi''),
                                         (''cache_control'', JNull)]])]] =
   Inr [JDict [(''role'', JStr ''user''),
               (''content'', JList [JDict [(''type'', JStr ''text''), (''text'', JStr ''hi''),
                                           (''cache_control'', JDict [(''type'', JStr ''ephemeral'')])]])]] \<and>
   read_back 5
     [OList [VRef 1],
      ODict [(''role'', VStr ''user''), (''content'', VRef 2)],
      OList [VRef 3],
      ODict [(''type'', VStr ''text''), (''text'', VStr ''hi''), (''cache_control'', VNull)],
      OList [VRef 5],
      ODict [(''role'', VStr ''user''), (''content'', VRef 6)],
      OList [VRef 7],
      ODict [(''type'', VStr ''text''), (''text'', VStr ''hi''), (''cache_control'', VRef 8)],
      ODict [(''type'', VStr ''ephemeral'')]]
     (VRef 4) =
   JList [JDict [(''role'', JStr ''user''),
                 (''content'', JList [JDict [(''type'', JStr ''text''), (''text'', JStr ''hi''),
                                             (''cache_control'', JDict [(''type'', JStr ''ephemeral'')])]])]]"
  by code_simp

lemma store_and_values_agree_on_empty_content:
  "store_add_cache_control_to_messages (\<lambda>h v. [])
     (VRef 0)
     [OList [VRef 1], ODict [(''role'', VStr ''user''), (''content'', VRef 2)], OList []] =
   (Inr (VRef 3),
    [OList [VRef 1], ODict [(''role'', VStr ''user''), (''content'', VRef 2)], OList [],
     OList [VRef 4],
     ODict [(''role'', VStr ''user''), (''content'', VRef 5)],
     OList [],
     ODict [(''type'', VStr ''ephemeral'')],
     ODict [(''type'', VStr ''text''), (''text'', VStr []), (''cache_control'', VRef 6)],
     OList [VRef 7]]) \<and>
   read_back 3
     [OList [VRef 1], ODict [(''role'', VStr ''user''), (''content'', VRef 2)], OList [],
      OList [VRef 4],
      ODict [(''role'', VStr ''user''), (''content'', VRef 5)],
      OList [],
      ODict [(''type'', VStr ''ephemeral'')],
      ODict [(''type'', VStr ''text''), (''text'', VStr []), (''cache_control'', VRef 6)],
      OList [VRef 7]]
     (VRef 3) =
   JList [JDict [(''role'', JStr ''user''), (''content'', JList [])]]"
  by code_simp

end
